theory Spec2Isabelle
  imports Complex_Main "HOL-Library.Char_ord" "HOL-Library.List_Lexorder"
begin

section \<open>Entity store\<close>

text \<open>
  The tables of \<^verbatim>\<open>db/config.ts\<close>, each a list of rows in the store's row order.
  Of the listing's columns only those read by the query code are kept (identity, the
  searched text columns, rating and the three status flags); the other columns are
  carried through unread by every query.  Field names carry a prefix because the source
  uses \<^verbatim>\<open>id\<close>, \<^verbatim>\<open>name\<close>, \<^verbatim>\<open>slug\<close> in every table.
\<close>

record business =
  b_id :: int
  b_name :: string
  b_slug :: string
  b_rating :: real
  b_full_address :: string
  b_city :: string
  b_state :: string
  b_business_type :: string
  b_description :: string
  b_is_active :: bool
  b_featured :: bool
  b_verified :: bool

record category =
  c_id :: int
  c_name :: string
  c_slug :: string
  c_is_active :: bool

record amenity =
  a_id :: int
  a_name :: string
  a_slug :: string
  a_category :: string
  a_is_active :: bool

record region =
  r_id :: int
  r_name :: string
  r_slug :: string
  r_state :: string
  r_country :: string

record business_category =
  bc_business_id :: int
  bc_category_id :: int

record business_amenity =
  ba_business_id :: int
  ba_amenity_id :: int

record business_region =
  br_business_id :: int
  br_region_id :: int

text \<open>
  The store.  Beside the tables it fixes what the query code cannot see but depends
  on:

  \<^item> which names the store module \<^verbatim>\<open>astro:db\<close> exports for the tables.
    \<^verbatim>\<open>db/config.ts\<close> registers them under the keys \<^verbatim>\<open>businesses\<close>,
    \<^verbatim>\<open>categories\<close> and so on to \<^verbatim>\<open>business_regions\<close>, the names that
    \<^verbatim>\<open>database.ts\<close> imports.  \<^verbatim>\<open>database-simple.ts\<close> imports \<^verbatim>\<open>Business\<close>,
    \<^verbatim>\<open>Category\<close> and so on to \<^verbatim>\<open>BusinessRegion\<close> instead;
    \<open>exports_entity_names\<close> says whether the store module exports the tables under
    those names too.  With \<^verbatim>\<open>db/config.ts\<close> as it stands it does not.

  \<^item> how large a statement the store takes.  A flat \<^verbatim>\<open>or(...conditions)\<close> is rejected
    from \<open>flat_or_limit\<close> terms on, and the chain
    \<^verbatim>\<open>condition = or(condition, nextCondition)\<close>, one level deeper with every id, from
    \<open>nested_or_limit\<close> chained ids on.  The awaited query then throws, and so does
    the function that awaits it.
\<close>

record database =
  businesses :: "business list"
  categories :: "category list"
  amenities :: "amenity list"
  regions :: "region list"
  business_categories :: "business_category list"
  business_amenities :: "business_amenity list"
  business_regions :: "business_region list"
  exports_entity_names :: bool
  flat_or_limit :: nat
  nested_or_limit :: nat

text \<open>
  What a call throws: the store rejected a statement, or a table name the module imports
  is not bound.
\<close>

datatype store_error = StatementRejected | TableUnbound

text \<open>
  \<^verbatim>\<open>BusinessFilters\<close>: every field is optional (\<open>None\<close> is \<^verbatim>\<open>undefined\<close>).
  \<^verbatim>\<open>Pagination\<close>: the numbers handed to \<^verbatim>\<open>LIMIT\<close> and \<^verbatim>\<open>OFFSET\<close>.
\<close>

record business_filters =
  f_categories :: "int list option"
  f_amenities :: "int list option"
  f_regions :: "int list option"
  f_city :: "string option"
  f_state :: "string option"
  f_rating_min :: "real option"
  f_featured_only :: "bool option"
  f_verified_only :: "bool option"

record pagination =
  p_limit :: int
  p_offset :: int

record business_result =
  res_business :: business
  res_categories :: "category list"

record business_detail =
  det_business :: business
  det_categories :: "category list"
  det_amenities :: "amenity list"
  det_regions :: "region list"

section \<open>JavaScript truthiness of the filter fields\<close>

text \<open>
  \<^verbatim>\<open>if (filters.city)\<close> holds for a non-empty string, \<^verbatim>\<open>if (filters.rating_min)\<close> for
  a number other than zero, \<^verbatim>\<open>if (filters.featured_only)\<close> for \<^verbatim>\<open>true\<close>;
  \<^verbatim>\<open>filters.categories && filters.categories.length > 0\<close> for a non-empty array.
\<close>

definition truthy_string :: "string option \<Rightarrow> bool" where
  "truthy_string s = (case s of None \<Rightarrow> False | Some v \<Rightarrow> v \<noteq> [])"

definition truthy_number :: "real option \<Rightarrow> bool" where
  "truthy_number r = (case r of None \<Rightarrow> False | Some v \<Rightarrow> v \<noteq> 0)"

definition truthy_bool :: "bool option \<Rightarrow> bool" where
  "truthy_bool b = (case b of None \<Rightarrow> False | Some v \<Rightarrow> v)"

definition has_items :: "int list option \<Rightarrow> bool" where
  "has_items xs = (case xs of None \<Rightarrow> False | Some v \<Rightarrow> length v > 0)"

section \<open>The store's operators\<close>

text \<open>
  \<^verbatim>\<open>LIKE\<close> of SQLite: \<^verbatim>\<open>%\<close> matches any run of characters, \<^verbatim>\<open>_\<close> any one
  character, every other character matches itself without regard to ASCII case.
  The first argument is the pattern.
\<close>

definition lower_ascii :: "char \<Rightarrow> char" where
  "lower_ascii c =
     (case map_of (zip ''ABCDEFGHIJKLMNOPQRSTUVWXYZ'' ''abcdefghijklmnopqrstuvwxyz'') c of
        None \<Rightarrow> c | Some l \<Rightarrow> l)"

fun sql_like :: "string \<Rightarrow> string \<Rightarrow> bool" where
  "sql_like [] [] = True"
| "sql_like [] (c # cs) = False"
| "sql_like (p # ps) [] = (p = CHR ''%'' \<and> sql_like ps [])"
| "sql_like (p # ps) (c # cs) =
     (if p = CHR ''%'' then sql_like ps (c # cs) \<or> sql_like (p # ps) cs
      else (p = CHR ''_'' \<or> lower_ascii p = lower_ascii c) \<and> sql_like ps cs)"

definition like :: "('r \<Rightarrow> string) \<Rightarrow> string \<Rightarrow> 'r \<Rightarrow> bool" where
  "like col pat row = sql_like pat (col row)"

definition eq :: "('r \<Rightarrow> 'v) \<Rightarrow> 'v \<Rightarrow> 'r \<Rightarrow> bool" where
  "eq col v row = (col row = v)"

definition gte :: "('r \<Rightarrow> real) \<Rightarrow> real \<Rightarrow> 'r \<Rightarrow> bool" where
  "gte col v row = (col row \<ge> v)"

definition and_all :: "('r \<Rightarrow> bool) list \<Rightarrow> 'r \<Rightarrow> bool" where
  "and_all conds row = list_all (\<lambda>c. c row) conds"

definition or_all :: "('r \<Rightarrow> bool) list \<Rightarrow> 'r \<Rightarrow> bool" where
  "or_all conds row = list_ex (\<lambda>c. c row) conds"

text \<open>
  \<^verbatim>\<open>ORDER BY featured DESC, rating DESC\<close>.  SQL leaves the order of ties to the store;
  the model keeps tied rows in table order (a stable insertion sort).
\<close>

definition precedes :: "business \<Rightarrow> business \<Rightarrow> bool" where
  "precedes x y =
     (b_featured x > b_featured y \<or> (b_featured x = b_featured y \<and> b_rating x \<ge> b_rating y))"

fun insert_ordered :: "business \<Rightarrow> business list \<Rightarrow> business list" where
  "insert_ordered x [] = [x]"
| "insert_ordered x (y # ys) = (if precedes x y then x # y # ys else y # insert_ordered x ys)"

definition order_by_featured_rating :: "business list \<Rightarrow> business list" where
  "order_by_featured_rating rows = foldr insert_ordered rows []"

text \<open>
  \<^verbatim>\<open>LIMIT l OFFSET o\<close> of SQLite: a negative limit is no limit, a negative offset is zero.
\<close>

definition limit_offset :: "int \<Rightarrow> int \<Rightarrow> 'r list \<Rightarrow> 'r list" where
  "limit_offset l ofs rows =
     (let rest = drop (nat ofs) rows in if l < 0 then rest else take (nat l) rest)"

section \<open>TursoDatabase (src/lib/database.ts)\<close>

subsection \<open>Resolving the multi-valued facets\<close>

text \<open>
  The block that computes \<^verbatim>\<open>businessIds\<close> is written out four times in the source
  (in \<^verbatim>\<open>getBusinesses\<close>, \<^verbatim>\<open>searchBusinesses\<close>, \<^verbatim>\<open>getBusinessCount\<close> and
  \<^verbatim>\<open>getSearchCount\<close>), the same each time.  \<open>NoMatch\<close> is its early return
  (of \<^verbatim>\<open>[]\<close> or \<^verbatim>\<open>0\<close>); \<open>Ids None\<close> is \<^verbatim>\<open>businessIds\<close> still undefined;
  \<open>Failed\<close> is a membership lookup that threw.  Each lookup is one statement with the
  flat \<^verbatim>\<open>or(...filters.categories.map(...))\<close> over the ids of the filter.
\<close>

datatype facet_outcome = Failed store_error | NoMatch | Ids "int list option"

definition categoryBusinesses :: "database \<Rightarrow> int list \<Rightarrow> store_error + int list" where
  "categoryBusinesses db ids =
     (if length ids \<ge> flat_or_limit db then Inl StatementRejected
      else Inr (map bc_business_id
             (filter (or_all (map (\<lambda>i. eq bc_category_id i) ids)) (business_categories db))))"

definition amenityBusinesses :: "database \<Rightarrow> int list \<Rightarrow> store_error + int list" where
  "amenityBusinesses db ids =
     (if length ids \<ge> flat_or_limit db then Inl StatementRejected
      else Inr (map ba_business_id
             (filter (or_all (map (\<lambda>i. eq ba_amenity_id i) ids)) (business_amenities db))))"

definition regionBusinesses :: "database \<Rightarrow> int list \<Rightarrow> store_error + int list" where
  "regionBusinesses db ids =
     (if length ids \<ge> flat_or_limit db then Inl StatementRejected
      else Inr (map br_business_id
             (filter (or_all (map (\<lambda>i. eq br_region_id i) ids)) (business_regions db))))"

definition filter_by_categories :: "database \<Rightarrow> business_filters \<Rightarrow> facet_outcome" where
  "filter_by_categories db filters =
     (if has_items (f_categories filters) then
        (case categoryBusinesses db (the (f_categories filters)) of
           Inl e \<Rightarrow> Failed e
         | Inr businessIds \<Rightarrow>
             if length businessIds = 0 then NoMatch else Ids (Some businessIds))
      else Ids None)"

definition intersect_ids :: "int list option \<Rightarrow> int list \<Rightarrow> int list" where
  "intersect_ids businessIds others =
     (case businessIds of
        Some ids \<Rightarrow> filter (\<lambda>i. i \<in> set others) ids
      | None \<Rightarrow> others)"

definition filter_by_amenities ::
  "database \<Rightarrow> business_filters \<Rightarrow> int list option \<Rightarrow> facet_outcome" where
  "filter_by_amenities db filters businessIds =
     (if has_items (f_amenities filters) then
        (case amenityBusinesses db (the (f_amenities filters)) of
           Inl e \<Rightarrow> Failed e
         | Inr amenityBusinessIds \<Rightarrow>
             (let businessIds' = intersect_ids businessIds amenityBusinessIds
              in if length businessIds' = 0 then NoMatch else Ids (Some businessIds')))
      else Ids businessIds)"

definition filter_by_regions ::
  "database \<Rightarrow> business_filters \<Rightarrow> int list option \<Rightarrow> facet_outcome" where
  "filter_by_regions db filters businessIds =
     (if has_items (f_regions filters) then
        (case regionBusinesses db (the (f_regions filters)) of
           Inl e \<Rightarrow> Failed e
         | Inr regionBusinessIds \<Rightarrow>
             (let businessIds' = intersect_ids businessIds regionBusinessIds
              in if length businessIds' = 0 then NoMatch else Ids (Some businessIds')))
      else Ids businessIds)"

definition resolve_business_ids :: "database \<Rightarrow> business_filters \<Rightarrow> facet_outcome" where
  "resolve_business_ids db filters =
     (case filter_by_categories db filters of
        Failed e \<Rightarrow> Failed e
      | NoMatch \<Rightarrow> NoMatch
      | Ids ids1 \<Rightarrow>
          (case filter_by_amenities db filters ids1 of
             Failed e \<Rightarrow> Failed e
           | NoMatch \<Rightarrow> NoMatch
           | Ids ids2 \<Rightarrow> filter_by_regions db filters ids2))"

text \<open>
  The id predicate pushed onto the conditions: one equality for a single id, otherwise
  the chain \<^verbatim>\<open>condition = or(condition, nextCondition)\<close> over the rest, one link per
  resolved id (an id resolved twice is chained twice).  The code builds the chain for any
  number of ids; the store rejects the statement that holds it from \<open>nested_or_limit\<close>
  ids on, and the awaited \<^verbatim>\<open>select\<close> throws: \<open>Inl\<close>.
\<close>

definition or2 :: "('r \<Rightarrow> bool) \<Rightarrow> ('r \<Rightarrow> bool) \<Rightarrow> 'r \<Rightarrow> bool" where
  "or2 c d row = (c row \<or> d row)"

definition id_condition :: "database \<Rightarrow> int list \<Rightarrow> store_error + (business \<Rightarrow> bool)" where
  "id_condition db businessIds =
     (if length businessIds = 1 then Inr (eq b_id (hd businessIds))
      else if length businessIds \<ge> nested_or_limit db then Inl StatementRejected
      else Inr (foldl or2 (eq b_id (hd businessIds)) (map (\<lambda>i. eq b_id i) (tl businessIds))))"

subsection \<open>Attaching the active categories of a listing\<close>

definition businessCategories :: "database \<Rightarrow> int \<Rightarrow> category list" where
  "businessCategories db bid =
     concat (map (\<lambda>c. concat (map (\<lambda>bc.
        if c_id c = bc_category_id bc \<and> bc_business_id bc = bid \<and> c_is_active c
        then [c] else []) (business_categories db))) (categories db))"

definition with_categories :: "database \<Rightarrow> business \<Rightarrow> business_result" where
  "with_categories db business =
     \<lparr>res_business = business, res_categories = businessCategories db (b_id business)\<rparr>"

subsection \<open>getBusinesses\<close>

definition getBusinesses_conditions :: "business_filters \<Rightarrow> (business \<Rightarrow> bool) list" where
  "getBusinesses_conditions filters =
     [eq b_is_active True]
     @ (if truthy_string (f_city filters)
        then [like b_city (''%'' @ the (f_city filters) @ ''%'')] else [])
     @ (if truthy_string (f_state filters)
        then [like b_state (''%'' @ the (f_state filters) @ ''%'')] else [])
     @ (if truthy_number (f_rating_min filters)
        then [gte b_rating (the (f_rating_min filters))] else [])
     @ (if truthy_bool (f_featured_only filters) then [eq b_featured True] else [])
     @ (if truthy_bool (f_verified_only filters) then [eq b_verified True] else [])"

definition select_page ::
  "database \<Rightarrow> (business \<Rightarrow> bool) list \<Rightarrow> pagination \<Rightarrow> business_result list" where
  "select_page db conditions pg =
     map (with_categories db)
       (limit_offset (p_limit pg) (p_offset pg)
          (order_by_featured_rating (filter (and_all conditions) (businesses db))))"

text \<open>\<open>Inr\<close> is the returned array, \<open>Inl\<close> what the call threw.\<close>

definition getBusinesses ::
  "database \<Rightarrow> business_filters \<Rightarrow> pagination \<Rightarrow> store_error + business_result list" where
  "getBusinesses db filters pg =
     (let conditions = getBusinesses_conditions filters in
      case resolve_business_ids db filters of
        Failed e \<Rightarrow> Inl e
      | NoMatch \<Rightarrow> Inr []
      | Ids None \<Rightarrow> Inr (select_page db conditions pg)
      | Ids (Some businessIds) \<Rightarrow>
          if length businessIds > 0 then
            (case id_condition db businessIds of
               Inl e \<Rightarrow> Inl e
             | Inr condition \<Rightarrow> Inr (select_page db (conditions @ [condition]) pg))
          else Inr [])"

subsection \<open>getBusinessCount\<close>

definition getBusinessCount_conditions :: "business_filters \<Rightarrow> (business \<Rightarrow> bool) list" where
  "getBusinessCount_conditions filters =
     [eq b_is_active True]
     @ (if truthy_string (f_city filters)
        then [like b_city (''%'' @ the (f_city filters) @ ''%'')] else [])
     @ (if truthy_string (f_state filters)
        then [like b_state (''%'' @ the (f_state filters) @ ''%'')] else [])
     @ (if truthy_bool (f_featured_only filters) then [eq b_featured True] else [])
     @ (if truthy_bool (f_verified_only filters) then [eq b_verified True] else [])"

definition select_count :: "database \<Rightarrow> (business \<Rightarrow> bool) list \<Rightarrow> nat" where
  "select_count db conditions = length (filter (and_all conditions) (businesses db))"

definition getBusinessCount :: "database \<Rightarrow> business_filters \<Rightarrow> store_error + nat" where
  "getBusinessCount db filters =
     (let conditions = getBusinessCount_conditions filters in
      case resolve_business_ids db filters of
        Failed e \<Rightarrow> Inl e
      | NoMatch \<Rightarrow> Inr 0
      | Ids None \<Rightarrow> Inr (select_count db conditions)
      | Ids (Some businessIds) \<Rightarrow>
          if length businessIds = 0 then Inr 0
          else
            (case id_condition db businessIds of
               Inl e \<Rightarrow> Inl e
             | Inr condition \<Rightarrow> Inr (select_count db (conditions @ [condition]))))"

subsection \<open>searchBusinesses and getSearchCount\<close>

definition search_group :: "string \<Rightarrow> business \<Rightarrow> bool" where
  "search_group searchTerm =
     or_all [like b_name searchTerm, like b_description searchTerm,
             like b_full_address searchTerm, like b_city searchTerm,
             like b_business_type searchTerm]"

definition searchBusinesses_conditions ::
  "string \<Rightarrow> business_filters \<Rightarrow> (business \<Rightarrow> bool) list" where
  "searchBusinesses_conditions query filters =
     (let searchTerm = ''%'' @ query @ ''%'' in
      [eq b_is_active True, search_group searchTerm]
      @ (if truthy_string (f_city filters)
         then [like b_city (''%'' @ the (f_city filters) @ ''%'')] else [])
      @ (if truthy_string (f_state filters)
         then [like b_state (''%'' @ the (f_state filters) @ ''%'')] else [])
      @ (if truthy_bool (f_featured_only filters) then [eq b_featured True] else [])
      @ (if truthy_bool (f_verified_only filters) then [eq b_verified True] else []))"

definition searchBusinesses ::
  "database \<Rightarrow> string \<Rightarrow> business_filters \<Rightarrow> pagination
     \<Rightarrow> store_error + business_result list" where
  "searchBusinesses db query filters pg =
     (let searchConditions = searchBusinesses_conditions query filters in
      case resolve_business_ids db filters of
        Failed e \<Rightarrow> Inl e
      | NoMatch \<Rightarrow> Inr []
      | Ids None \<Rightarrow> Inr (select_page db searchConditions pg)
      | Ids (Some businessIds) \<Rightarrow>
          if length businessIds > 0 then
            (case id_condition db businessIds of
               Inl e \<Rightarrow> Inl e
             | Inr condition \<Rightarrow> Inr (select_page db (searchConditions @ [condition]) pg))
          else Inr [])"

definition getSearchCount ::
  "database \<Rightarrow> string \<Rightarrow> business_filters \<Rightarrow> store_error + nat" where
  "getSearchCount db query filters =
     (let conditions = searchBusinesses_conditions query filters in
      case resolve_business_ids db filters of
        Failed e \<Rightarrow> Inl e
      | NoMatch \<Rightarrow> Inr 0
      | Ids None \<Rightarrow> Inr (select_count db conditions)
      | Ids (Some businessIds) \<Rightarrow>
          if length businessIds = 0 then Inr 0
          else
            (case id_condition db businessIds of
               Inl e \<Rightarrow> Inl e
             | Inr condition \<Rightarrow> Inr (select_count db (conditions @ [condition]))))"

subsection \<open>getBusinessBySlug\<close>

definition businessAmenities :: "database \<Rightarrow> int \<Rightarrow> amenity list" where
  "businessAmenities db bid =
     concat (map (\<lambda>a. concat (map (\<lambda>ba.
        if a_id a = ba_amenity_id ba \<and> ba_business_id ba = bid \<and> a_is_active a
        then [a] else []) (business_amenities db))) (amenities db))"

definition businessRegions :: "database \<Rightarrow> int \<Rightarrow> region list" where
  "businessRegions db bid =
     concat (map (\<lambda>r. concat (map (\<lambda>br.
        if r_id r = br_region_id br \<and> br_business_id br = bid
        then [r] else []) (business_regions db))) (regions db))"

text \<open>\<open>None\<close> is the \<^verbatim>\<open>null\<close> returned when no row matches.\<close>

definition getBusinessBySlug :: "database \<Rightarrow> string \<Rightarrow> business_detail option" where
  "getBusinessBySlug db slug =
     (let businessResult =
        limit_offset 1 0 (filter (and_all [eq b_slug slug, eq b_is_active True]) (businesses db))
      in case businessResult of
           [] \<Rightarrow> None
         | business # _ \<Rightarrow>
             Some \<lparr>det_business = business,
                   det_categories = businessCategories db (b_id business),
                   det_amenities = businessAmenities db (b_id business),
                   det_regions = businessRegions db (b_id business)\<rparr>)"

subsection \<open>getCategoriesWithCounts\<close>

text \<open>
  A left join keeps every left row: with each matching right row, or once with the
  right side \<^verbatim>\<open>NULL\<close> (\<open>None\<close>) when none matches.  \<^verbatim>\<open>count(column)\<close> counts the
  rows of a group in which the column is not \<^verbatim>\<open>NULL\<close>.
\<close>

definition left_join :: "'l list \<Rightarrow> 'r list \<Rightarrow> ('l \<Rightarrow> 'r \<Rightarrow> bool) \<Rightarrow> ('l \<times> 'r option) list" where
  "left_join lefts rights on =
     concat (map (\<lambda>l.
       (let ms = filter (on l) rights
        in if ms = [] then [(l, None)] else map (\<lambda>r. (l, Some r)) ms)) lefts)"

record category_with_count =
  cc_category :: category
  cc_business_count :: nat

definition categories_joined ::
  "database \<Rightarrow> ((category \<times> business_category option) \<times> business option) list" where
  "categories_joined db =
     left_join
       (left_join (categories db) (business_categories db)
          (\<lambda>c bc. c_id c = bc_category_id bc))
       (businesses db)
       (\<lambda>(c, bc) b. case bc of None \<Rightarrow> False
                     | Some m \<Rightarrow> bc_business_id m = b_id b \<and> b_is_active b = True)"

definition getCategoriesWithCounts :: "database \<Rightarrow> category_with_count list" where
  "getCategoriesWithCounts db =
     (let rows = filter (\<lambda>((c, bc), b). c_is_active c = True) (categories_joined db);
          groups = remdups (map (\<lambda>((c, bc), b). c) rows)
      in sort_key (\<lambda>g. c_name (cc_category g))
           (map (\<lambda>g. \<lparr>cc_category = g,
                       cc_business_count =
                         length (filter (\<lambda>((c, bc), b). c = g \<and> bc \<noteq> None) rows)\<rparr>)
              groups))"

subsection \<open>getStatesWithCounts\<close>

text \<open>
  \<^verbatim>\<open>GROUP BY state\<close> with \<^verbatim>\<open>count(id)\<close>, ordered by state: one pair per distinct
  state with the number of its rows.
\<close>

definition group_by_state :: "('r \<Rightarrow> string) \<Rightarrow> 'r list \<Rightarrow> (string \<times> nat) list" where
  "group_by_state col rows =
     map (\<lambda>s. (s, length (filter (\<lambda>r. col r = s) rows))) (sort (remdups (map col rows)))"

text \<open>
  The JavaScript \<^verbatim>\<open>Map\<close> keeps its entries in insertion order: \<^verbatim>\<open>set\<close> on a key
  already present replaces the value in place, on a new key appends the entry.
\<close>

record state_counts =
  sc_business_count :: nat
  sc_region_count :: nat

fun map_set :: "'k \<Rightarrow> 'v \<Rightarrow> ('k \<times> 'v) list \<Rightarrow> ('k \<times> 'v) list" where
  "map_set k v [] = [(k, v)]"
| "map_set k v ((k', v') # m) = (if k' = k then (k, v) # m else (k', v') # map_set k v m)"

definition map_get :: "('k \<times> 'v) list \<Rightarrow> 'k \<Rightarrow> 'v option" where
  "map_get m k = map_of m k"

definition add_business_count ::
  "(string \<times> state_counts) list \<Rightarrow> string \<times> nat \<Rightarrow> (string \<times> state_counts) list" where
  "add_business_count stateMap item =
     map_set (fst item) \<lparr>sc_business_count = snd item, sc_region_count = 0\<rparr> stateMap"

definition add_region_count ::
  "(string \<times> state_counts) list \<Rightarrow> string \<times> nat \<Rightarrow> (string \<times> state_counts) list" where
  "add_region_count stateMap item =
     (case map_get stateMap (fst item) of
        Some existing \<Rightarrow> map_set (fst item) (existing\<lparr>sc_region_count := snd item\<rparr>) stateMap
      | None \<Rightarrow>
          map_set (fst item) \<lparr>sc_business_count = 0, sc_region_count = snd item\<rparr> stateMap)"

record state_with_counts =
  st_state :: string
  st_business_count :: nat
  st_region_count :: nat

text \<open>
  \<^verbatim>\<open>Array.prototype.sort\<close> with a comparator: a stable sort; \<open>x\<close> goes before the first
  \<open>y\<close> with \<open>cmp x y \<le> 0\<close>.  \<^verbatim>\<open>localeCompare\<close> belongs to the JavaScript runtime and
  is a parameter of the model.
\<close>

fun insert_by :: "('a \<Rightarrow> 'a \<Rightarrow> int) \<Rightarrow> 'a \<Rightarrow> 'a list \<Rightarrow> 'a list" where
  "insert_by cmp x [] = [x]"
| "insert_by cmp x (y # ys) = (if cmp x y \<le> 0 then x # y # ys else y # insert_by cmp x ys)"

definition js_sort :: "('a \<Rightarrow> 'a \<Rightarrow> int) \<Rightarrow> 'a list \<Rightarrow> 'a list" where
  "js_sort cmp xs = foldr (insert_by cmp) xs []"

definition stateMap :: "database \<Rightarrow> (string \<times> state_counts) list" where
  "stateMap db =
     (let businessCounts = group_by_state b_state (filter (eq b_is_active True) (businesses db));
          regionCounts = group_by_state r_state (regions db)
      in foldl add_region_count (foldl add_business_count [] businessCounts) regionCounts)"

definition getStatesWithCounts ::
  "(string \<Rightarrow> string \<Rightarrow> int) \<Rightarrow> database \<Rightarrow> state_with_counts list" where
  "getStatesWithCounts localeCompare db =
     js_sort (\<lambda>a b. localeCompare (st_state a) (st_state b))
       (map (\<lambda>(state, counts).
               \<lparr>st_state = state,
                st_business_count = sc_business_count counts,
                st_region_count = sc_region_count counts\<rparr>) (stateMap db))"

section \<open>SimpleDatabase (src/lib/database-simple.ts)\<close>

text \<open>
  The scalar conditions go to the store; the facets are then filtered in memory, through
  a \<^verbatim>\<open>Map\<close> from listing id to the facet ids of its membership rows, and the page is
  cut with \<^verbatim>\<open>Array.prototype.slice\<close> (a negative index counts from the end).
\<close>

definition js_slice :: "'a list \<Rightarrow> int \<Rightarrow> int \<Rightarrow> 'a list" where
  "js_slice xs start stop =
     (let len = int (length xs);
          k = (if start < 0 then max (len + start) 0 else min start len);
          fin = (if stop < 0 then max (len + stop) 0 else min stop len)
      in take (nat (fin - k)) (drop (nat k) xs))"

definition push_member :: "(int \<rightharpoonup> int list) \<Rightarrow> int \<times> int \<Rightarrow> (int \<rightharpoonup> int list)" where
  "push_member m row =
     (let m' = (if m (fst row) = None then m(fst row \<mapsto> []) else m)
      in m'(fst row \<mapsto> the (m' (fst row)) @ [snd row]))"

text \<open>
  The three helpers return the empty \<^verbatim>\<open>Map\<close> for no ids; otherwise they send one
  statement whose \<^verbatim>\<open>WHERE\<close> is the flat \<^verbatim>\<open>or(...businessIds.map(...))\<close> over every
  id passed in, which the store rejects from \<open>flat_or_limit\<close> ids on.
\<close>

definition getBusinessesWithCategories ::
  "database \<Rightarrow> int list \<Rightarrow> store_error + (int \<rightharpoonup> int list)" where
  "getBusinessesWithCategories db businessIds =
     (if length businessIds = 0 then Inr Map.empty
      else if length businessIds \<ge> flat_or_limit db then Inl StatementRejected
      else Inr (foldl push_member Map.empty
             (map (\<lambda>bc. (bc_business_id bc, bc_category_id bc))
                (filter (or_all (map (\<lambda>i. eq bc_business_id i) businessIds))
                   (business_categories db)))))"

definition getBusinessesWithAmenities ::
  "database \<Rightarrow> int list \<Rightarrow> store_error + (int \<rightharpoonup> int list)" where
  "getBusinessesWithAmenities db businessIds =
     (if length businessIds = 0 then Inr Map.empty
      else if length businessIds \<ge> flat_or_limit db then Inl StatementRejected
      else Inr (foldl push_member Map.empty
             (map (\<lambda>ba. (ba_business_id ba, ba_amenity_id ba))
                (filter (or_all (map (\<lambda>i. eq ba_business_id i) businessIds))
                   (business_amenities db)))))"

definition getBusinessesWithRegions ::
  "database \<Rightarrow> int list \<Rightarrow> store_error + (int \<rightharpoonup> int list)" where
  "getBusinessesWithRegions db businessIds =
     (if length businessIds = 0 then Inr Map.empty
      else if length businessIds \<ge> flat_or_limit db then Inl StatementRejected
      else Inr (foldl push_member Map.empty
             (map (\<lambda>br. (br_business_id br, br_region_id br))
                (filter (or_all (map (\<lambda>i. eq br_business_id i) businessIds))
                   (business_regions db)))))"

text \<open>
  \<^verbatim>\<open>map.get(id) || []\<close>, and
  \<^verbatim>\<open>wanted.some(x => (map.get(business.id) || []).includes(x))\<close>.
\<close>

definition held :: "(int \<rightharpoonup> int list) \<Rightarrow> int \<Rightarrow> int list" where
  "held m k = (case m k of None \<Rightarrow> [] | Some v \<Rightarrow> v)"

definition some_included :: "(int \<rightharpoonup> int list) \<Rightarrow> int list \<Rightarrow> business \<Rightarrow> bool" where
  "some_included m wanted business =
     (let businessFacets = held m (b_id business)
      in list_ex (\<lambda>x. x \<in> set businessFacets) wanted)"

text \<open>
  One facet step: await the helper, then keep the rows that hold one of the wanted ids.
\<close>

definition keep_included ::
  "store_error + (int \<rightharpoonup> int list) \<Rightarrow> int list \<Rightarrow> business list
     \<Rightarrow> store_error + business list" where
  "keep_included lookup wanted rows =
     (case lookup of
        Inl e \<Rightarrow> Inl e
      | Inr m \<Rightarrow> Inr (filter (some_included m wanted) rows))"

definition Simple_facets ::
  "database \<Rightarrow> business_filters \<Rightarrow> business list \<Rightarrow> store_error + business list" where
  "Simple_facets db filters rows =
     (case (if has_items (f_categories filters)
            then keep_included (getBusinessesWithCategories db (map b_id rows))
                   (the (f_categories filters)) rows
            else Inr rows) of
        Inl e \<Rightarrow> Inl e
      | Inr rows1 \<Rightarrow>
          (case (if has_items (f_amenities filters)
                 then keep_included (getBusinessesWithAmenities db (map b_id rows1))
                        (the (f_amenities filters)) rows1
                 else Inr rows1) of
             Inl e \<Rightarrow> Inl e
           | Inr rows2 \<Rightarrow>
               if has_items (f_regions filters)
               then keep_included (getBusinessesWithRegions db (map b_id rows2))
                      (the (f_regions filters)) rows2
               else Inr rows2))"

text \<open>
  Both functions start by reading a column of the imported \<^verbatim>\<open>Business\<close>
  (\<^verbatim>\<open>eq(Business.is_active, true)\<close>), which is bound only when the store module exports
  that name; otherwise the call throws before any statement is sent.
\<close>

definition Simple_getBusinesses ::
  "database \<Rightarrow> business_filters \<Rightarrow> pagination \<Rightarrow> store_error + business_result list" where
  "Simple_getBusinesses db filters pg =
     (if exports_entity_names db then
        (let conditions = getBusinesses_conditions filters;
             rows = order_by_featured_rating (filter (and_all conditions) (businesses db));
             startIndex = p_offset pg;
             endIndex = startIndex + p_limit pg
         in case Simple_facets db filters rows of
              Inl e \<Rightarrow> Inl e
            | Inr rows' \<Rightarrow> Inr (map (with_categories db) (js_slice rows' startIndex endIndex)))
      else Inl TableUnbound)"

definition Simple_getBusinessCount :: "database \<Rightarrow> business_filters \<Rightarrow> store_error + nat" where
  "Simple_getBusinessCount db filters =
     (if exports_entity_names db then
        (let conditions = getBusinessCount_conditions filters;
             rows = filter (and_all conditions) (businesses db)
         in case Simple_facets db filters rows of
              Inl e \<Rightarrow> Inl e
            | Inr rows' \<Rightarrow> Inr (length rows'))
      else Inl TableUnbound)"

section \<open>RealDatabase (direct SQL, src/unnamed/part_001)\<close>

text \<open>
  One \<^verbatim>\<open>INNER JOIN\<close> per supplied facet, the facet's \<^verbatim>\<open>IN (...)\<close> test in the
  \<^verbatim>\<open>WHERE\<close> clause, and \<^verbatim>\<open>SELECT DISTINCT b.*\<close> (or \<^verbatim>\<open>COUNT(DISTINCT b.id)\<close>) over
  the joined rows.  A joined row carries the listing and the membership row of each
  joined table (\<open>None\<close> when that table is not joined).  \<^verbatim>\<open>DISTINCT\<close> compares the
  listing rows as the model keeps them.
\<close>

record joined_row =
  j_b :: business
  j_bc :: "business_category option"
  j_ba :: "business_amenity option"
  j_br :: "business_region option"

definition Real_from :: "database \<Rightarrow> business_filters \<Rightarrow> joined_row list" where
  "Real_from db filters =
     (let rows0 = map (\<lambda>b. \<lparr>j_b = b, j_bc = None, j_ba = None, j_br = None\<rparr>) (businesses db);
          rows1 = (if has_items (f_categories filters)
                   then concat (map (\<lambda>row. map (\<lambda>bc. row\<lparr>j_bc := Some bc\<rparr>)
                          (filter (\<lambda>bc. b_id (j_b row) = bc_business_id bc)
                             (business_categories db))) rows0)
                   else rows0);
          rows2 = (if has_items (f_amenities filters)
                   then concat (map (\<lambda>row. map (\<lambda>ba. row\<lparr>j_ba := Some ba\<rparr>)
                          (filter (\<lambda>ba. b_id (j_b row) = ba_business_id ba)
                             (business_amenities db))) rows1)
                   else rows1)
      in if has_items (f_regions filters)
         then concat (map (\<lambda>row. map (\<lambda>br. row\<lparr>j_br := Some br\<rparr>)
                (filter (\<lambda>br. b_id (j_b row) = br_business_id br)
                   (business_regions db))) rows2)
         else rows2)"

definition in_list :: "('m \<Rightarrow> int) \<Rightarrow> int list \<Rightarrow> 'm option \<Rightarrow> bool" where
  "in_list col ids m = (case m of None \<Rightarrow> False | Some v \<Rightarrow> col v \<in> set ids)"

definition Real_facet_conditions :: "business_filters \<Rightarrow> (joined_row \<Rightarrow> bool) list" where
  "Real_facet_conditions filters =
     (if has_items (f_categories filters)
      then [\<lambda>row. in_list bc_category_id (the (f_categories filters)) (j_bc row)] else [])
     @ (if has_items (f_amenities filters)
        then [\<lambda>row. in_list ba_amenity_id (the (f_amenities filters)) (j_ba row)] else [])
     @ (if has_items (f_regions filters)
        then [\<lambda>row. in_list br_region_id (the (f_regions filters)) (j_br row)] else [])"

definition Real_getBusinesses_where :: "business_filters \<Rightarrow> (joined_row \<Rightarrow> bool) list" where
  "Real_getBusinesses_where filters =
     [eq (\<lambda>row. b_is_active (j_b row)) True]
     @ (if truthy_string (f_city filters)
        then [like (\<lambda>row. b_city (j_b row)) (''%'' @ the (f_city filters) @ ''%'')] else [])
     @ (if truthy_string (f_state filters)
        then [like (\<lambda>row. b_state (j_b row)) (''%'' @ the (f_state filters) @ ''%'')] else [])
     @ (if truthy_number (f_rating_min filters)
        then [gte (\<lambda>row. b_rating (j_b row)) (the (f_rating_min filters))] else [])
     @ (if truthy_bool (f_featured_only filters)
        then [eq (\<lambda>row. b_featured (j_b row)) True] else [])
     @ (if truthy_bool (f_verified_only filters)
        then [eq (\<lambda>row. b_verified (j_b row)) True] else [])
     @ Real_facet_conditions filters"

definition Real_getBusinesses ::
  "database \<Rightarrow> business_filters \<Rightarrow> pagination \<Rightarrow> business_result list" where
  "Real_getBusinesses db filters pg =
     (let whereConditions = Real_getBusinesses_where filters;
          rows = remdups (map j_b (filter (and_all whereConditions) (Real_from db filters)))
      in map (with_categories db)
           (limit_offset (p_limit pg) (p_offset pg) (order_by_featured_rating rows)))"

definition Real_getBusinessCount_where :: "business_filters \<Rightarrow> (joined_row \<Rightarrow> bool) list" where
  "Real_getBusinessCount_where filters =
     [eq (\<lambda>row. b_is_active (j_b row)) True]
     @ (if truthy_string (f_city filters)
        then [like (\<lambda>row. b_city (j_b row)) (''%'' @ the (f_city filters) @ ''%'')] else [])
     @ (if truthy_string (f_state filters)
        then [like (\<lambda>row. b_state (j_b row)) (''%'' @ the (f_state filters) @ ''%'')] else [])
     @ (if truthy_bool (f_featured_only filters)
        then [eq (\<lambda>row. b_featured (j_b row)) True] else [])
     @ (if truthy_bool (f_verified_only filters)
        then [eq (\<lambda>row. b_verified (j_b row)) True] else [])
     @ Real_facet_conditions filters"

definition Real_getBusinessCount :: "database \<Rightarrow> business_filters \<Rightarrow> nat" where
  "Real_getBusinessCount db filters =
     (let whereConditions = Real_getBusinessCount_where filters
      in length (remdups (map (\<lambda>row. b_id (j_b row))
                   (filter (and_all whereConditions) (Real_from db filters)))))"

section \<open>What a filter asks of a listing\<close>

text \<open>
  The facet part of a filter, in the specification's words: a listing holds membership
  in at least one of the supplied ids of every supplied (non-empty) facet.
\<close>

definition holds_category :: "database \<Rightarrow> int \<Rightarrow> int \<Rightarrow> bool" where
  "holds_category db bid cid =
     (\<exists>m \<in> set (business_categories db). bc_business_id m = bid \<and> bc_category_id m = cid)"

definition holds_amenity :: "database \<Rightarrow> int \<Rightarrow> int \<Rightarrow> bool" where
  "holds_amenity db bid aid =
     (\<exists>m \<in> set (business_amenities db). ba_business_id m = bid \<and> ba_amenity_id m = aid)"

definition holds_region :: "database \<Rightarrow> int \<Rightarrow> int \<Rightarrow> bool" where
  "holds_region db bid rid =
     (\<exists>m \<in> set (business_regions db). br_business_id m = bid \<and> br_region_id m = rid)"

definition facet_match :: "database \<Rightarrow> business_filters \<Rightarrow> int \<Rightarrow> bool" where
  "facet_match db filters bid =
     ((has_items (f_categories filters) \<longrightarrow>
         (\<exists>c \<in> set (the (f_categories filters)). holds_category db bid c)) \<and>
      (has_items (f_amenities filters) \<longrightarrow>
         (\<exists>a \<in> set (the (f_amenities filters)). holds_amenity db bid a)) \<and>
      (has_items (f_regions filters) \<longrightarrow>
         (\<exists>r \<in> set (the (f_regions filters)). holds_region db bid r)))"

text \<open>
  The scalar part of a filter: city and state as \<^verbatim>\<open>LIKE\<close> patterns, the rating
  floor, and the two flags, each only when the field is set (truthy).
\<close>

definition scalar_match :: "business_filters \<Rightarrow> business \<Rightarrow> bool" where
  "scalar_match filters b =
     ((truthy_string (f_city filters) \<longrightarrow>
         sql_like (''%'' @ the (f_city filters) @ ''%'') (b_city b)) \<and>
      (truthy_string (f_state filters) \<longrightarrow>
         sql_like (''%'' @ the (f_state filters) @ ''%'') (b_state b)) \<and>
      (truthy_number (f_rating_min filters) \<longrightarrow> b_rating b \<ge> the (f_rating_min filters)) \<and>
      (truthy_bool (f_featured_only filters) \<longrightarrow> b_featured b) \<and>
      (truthy_bool (f_verified_only filters) \<longrightarrow> b_verified b))"

text \<open>
  The outcome of the facet resolution read as a set of listing ids: \<open>NoMatch\<close> admits
  no id, \<open>Ids None\<close> every id, a list its members.  An outcome that \<open>carries_on\<close>
  has not thrown, and its list, if any, is not empty.
\<close>

definition admits :: "facet_outcome \<Rightarrow> int \<Rightarrow> bool" where
  "admits outcome bid =
     (case outcome of
        Failed e \<Rightarrow> False
      | NoMatch \<Rightarrow> False
      | Ids None \<Rightarrow> True
      | Ids (Some ids) \<Rightarrow> bid \<in> set ids)"

definition carries_on :: "facet_outcome \<Rightarrow> bool" where
  "carries_on outcome =
     (case outcome of
        Failed e \<Rightarrow> False
      | NoMatch \<Rightarrow> True
      | Ids None \<Rightarrow> True
      | Ids (Some ids) \<Rightarrow> ids \<noteq> [])"

text \<open>The store with its inactive listings removed.\<close>

definition without_inactive :: "database \<Rightarrow> database" where
  "without_inactive db = db\<lparr>businesses := filter b_is_active (businesses db)\<rparr>"

text \<open>
  The number of distinct active listings that hold a membership row for a category.
\<close>

definition distinct_active_members :: "database \<Rightarrow> int \<Rightarrow> nat" where
  "distinct_active_members db cid =
     length (remdups (map b_id
       (filter (\<lambda>b. b_is_active b \<and> holds_category db (b_id b) cid) (businesses db))))"

section \<open>Example stores\<close>

definition listing :: "int \<Rightarrow> string \<Rightarrow> real \<Rightarrow> bool \<Rightarrow> bool \<Rightarrow> business" where
  "listing i slug rating active featured =
     \<lparr>b_id = i, b_name = slug, b_slug = slug, b_rating = rating,
      b_full_address = ''1 Main St'', b_city = ''Reno'', b_state = ''Nevada'',
      b_business_type = ''Casino'', b_description = ''tables'',
      b_is_active = active, b_featured = featured, b_verified = False\<rparr>"

definition no_filters :: business_filters where
  "no_filters =
     \<lparr>f_categories = None, f_amenities = None, f_regions = None, f_city = None,
      f_state = None, f_rating_min = None, f_featured_only = None, f_verified_only = None\<rparr>"

text \<open>The filter of property P2: categories 1 or 2, and amenity 1.\<close>

definition facet_filters :: business_filters where
  "facet_filters = no_filters\<lparr>f_categories := Some [1, 2], f_amenities := Some [1]\<rparr>"

definition first_page :: pagination where
  "first_page = \<lparr>p_limit = 10, p_offset = 0\<rparr>"

text \<open>
  The empty store as \<^verbatim>\<open>db/config.ts\<close> sets it up (the entity names are not
  exported), rejecting a flat \<^verbatim>\<open>or\<close> of 999 terms and a chain of 88 ids.  Every
  example store below is this store with rows added.
\<close>

definition empty_store :: database where
  "empty_store =
     \<lparr>businesses = [], categories = [], amenities = [], regions = [],
      business_categories = [], business_amenities = [], business_regions = [],
      exports_entity_names = False, flat_or_limit = 999, nested_or_limit = 88\<rparr>"

text \<open>A store whose module exports the tables under the entity names as well.\<close>

definition with_entity_names :: "database \<Rightarrow> database" where
  "with_entity_names db = db\<lparr>exports_entity_names := True\<rparr>"

text \<open>A single active listing, rated 3.\<close>

definition single_store :: database where
  "single_store = empty_store\<lparr>businesses := [listing 1 ''alpha'' 3 True False]\<rparr>"

text \<open>Active listings rated 3, 4 and 5 (the last one featured) and an inactive one.\<close>

definition rated_store :: database where
  "rated_store = empty_store
     \<lparr>businesses := [listing 1 ''alpha'' 3 True False, listing 2 ''beta'' 4 True False,
                      listing 3 ''gamma'' 5 True True, listing 4 ''delta'' 5 False False]\<rparr>"

text \<open>
  The scenario of property P2: L1 (category 1, amenity 1), L2 (category 1, amenity 2),
  L3 (category 3, amenity 1).
\<close>

definition facet_store :: database where
  "facet_store = empty_store
     \<lparr>businesses := [listing 1 ''l1'' 4 True False, listing 2 ''l2'' 4 True False,
                      listing 3 ''l3'' 4 True False],
      business_categories :=
        [\<lparr>bc_business_id = 1, bc_category_id = 1\<rparr>, \<lparr>bc_business_id = 2, bc_category_id = 1\<rparr>,
         \<lparr>bc_business_id = 3, bc_category_id = 3\<rparr>],
      business_amenities :=
        [\<lparr>ba_business_id = 1, ba_amenity_id = 1\<rparr>, \<lparr>ba_business_id = 2, ba_amenity_id = 2\<rparr>,
         \<lparr>ba_business_id = 3, ba_amenity_id = 1\<rparr>]\<rparr>"

text \<open>One active category whose only member is an inactive listing.\<close>

definition inactive_member_store :: database where
  "inactive_member_store = empty_store
     \<lparr>businesses := [listing 1 ''alpha'' 4 False False],
      categories := [\<lparr>c_id = 1, c_name = ''Casinos'', c_slug = ''casinos'', c_is_active = True\<rparr>],
      business_categories := [\<lparr>bc_business_id = 1, bc_category_id = 1\<rparr>]\<rparr>"

text \<open>One active category whose only member, an active listing, has two membership rows.\<close>

definition duplicate_member_store :: database where
  "duplicate_member_store = empty_store
     \<lparr>businesses := [listing 1 ''alpha'' 4 True False],
      categories := [\<lparr>c_id = 1, c_name = ''Casinos'', c_slug = ''casinos'', c_is_active = True\<rparr>],
      business_categories :=
        [\<lparr>bc_business_id = 1, bc_category_id = 1\<rparr>, \<lparr>bc_business_id = 1, bc_category_id = 1\<rparr>]\<rparr>"

text \<open>An active listing in Ohio, an inactive one in Nevada, and a region in Utah.\<close>

definition states_store :: database where
  "states_store = empty_store
     \<lparr>businesses := [(listing 1 ''alpha'' 4 True False)\<lparr>b_state := ''Ohio''\<rparr>,
                      listing 2 ''beta'' 4 False False],
      regions := [\<lparr>r_id = 1, r_name = ''Moab'', r_slug = ''moab'', r_state = ''Utah'',
                   r_country = ''US''\<rparr>]\<rparr>"

text \<open>
  \<open>n\<close> active listings with the ids 1 to \<open>n\<close>, each with one membership row for
  category 1 and one for amenity 1.
\<close>

definition crowded_ids :: "nat \<Rightarrow> int list" where
  "crowded_ids n = map int [1..<Suc n]"

definition crowded_store :: "nat \<Rightarrow> database" where
  "crowded_store n = empty_store
     \<lparr>businesses := map (\<lambda>i. listing i (replicate (nat i) CHR ''v'') 4 True False)
                       (crowded_ids n),
      business_categories :=
        map (\<lambda>i. \<lparr>bc_business_id = i, bc_category_id = 1\<rparr>) (crowded_ids n),
      business_amenities :=
        map (\<lambda>i. \<lparr>ba_business_id = i, ba_amenity_id = 1\<rparr>) (crowded_ids n)\<rparr>"

definition crowded_filters :: business_filters where
  "crowded_filters = no_filters\<lparr>f_categories := Some [1], f_amenities := Some [1]\<rparr>"

definition wide_page :: pagination where
  "wide_page = \<lparr>p_limit = 1000, p_offset = 0\<rparr>"

text \<open>Two active listings that share the slug \<^verbatim>\<open>dup\<close>.\<close>

definition shared_slug_store :: database where
  "shared_slug_store = empty_store
     \<lparr>businesses := [listing 1 ''dup'' 4 True False, listing 2 ''dup'' 4 True False]\<rparr>"

definition byte_compare :: "string \<Rightarrow> string \<Rightarrow> int" where
  "byte_compare a b = (if a < b then - 1 else if a = b then 0 else 1)"

section \<open>Properties of the store's operators and of the facet resolution\<close>

lemma and_all_snoc: "and_all (conds @ [c]) = (\<lambda>row. and_all conds row \<and> c row)"
  by (simp add: fun_eq_iff and_all_def)

lemma or_all_eq_map: "or_all (map (\<lambda>i. eq col i) ids) row = (col row \<in> set ids)"
  by (induction ids) (auto simp: or_all_def eq_def)

lemma foldl_or2: "foldl or2 c (map (\<lambda>i. eq col i) ids) row = (c row \<or> col row \<in> set ids)"
  by (induction ids arbitrary: c) (auto simp: or2_def eq_def)

lemma id_condition_iff:
  assumes "id_condition db ids = Inr condition" and "ids \<noteq> []"
  shows "condition b = (b_id b \<in> set ids)"
proof -
  obtain i rest where ids: "ids = i # rest"
    using assms(2) by (cases ids) auto
  have "condition = eq b_id i \<and> rest = []
      \<or> condition = foldl or2 (eq b_id i) (map (\<lambda>i. eq b_id i) rest)"
    using assms(1) by (auto simp: id_condition_def ids split: if_splits)
  then show ?thesis
    by (auto simp: ids foldl_or2 eq_def)
qed

lemma set_category_rows:
  "(bid \<in> set (map bc_business_id
       (filter (or_all (map (\<lambda>i. eq bc_category_id i) ids)) (business_categories db)))) =
     (\<exists>c \<in> set ids. holds_category db bid c)"
  by (auto simp: or_all_eq_map holds_category_def)

lemma set_amenity_rows:
  "(bid \<in> set (map ba_business_id
       (filter (or_all (map (\<lambda>i. eq ba_amenity_id i) ids)) (business_amenities db)))) =
     (\<exists>a \<in> set ids. holds_amenity db bid a)"
  by (auto simp: or_all_eq_map holds_amenity_def)

lemma set_region_rows:
  "(bid \<in> set (map br_business_id
       (filter (or_all (map (\<lambda>i. eq br_region_id i) ids)) (business_regions db)))) =
     (\<exists>r \<in> set ids. holds_region db bid r)"
  by (auto simp: or_all_eq_map holds_region_def)

lemma set_categoryBusinesses:
  assumes "categoryBusinesses db ids = Inr found"
  shows "(bid \<in> set found) = (\<exists>c \<in> set ids. holds_category db bid c)"
proof -
  have "found = map bc_business_id
      (filter (or_all (map (\<lambda>i. eq bc_category_id i) ids)) (business_categories db))"
    using assms by (simp add: categoryBusinesses_def split: if_splits)
  then show ?thesis by (simp only: set_category_rows)
qed

lemma set_amenityBusinesses:
  assumes "amenityBusinesses db ids = Inr found"
  shows "(bid \<in> set found) = (\<exists>a \<in> set ids. holds_amenity db bid a)"
proof -
  have "found = map ba_business_id
      (filter (or_all (map (\<lambda>i. eq ba_amenity_id i) ids)) (business_amenities db))"
    using assms by (simp add: amenityBusinesses_def split: if_splits)
  then show ?thesis by (simp only: set_amenity_rows)
qed

lemma set_regionBusinesses:
  assumes "regionBusinesses db ids = Inr found"
  shows "(bid \<in> set found) = (\<exists>r \<in> set ids. holds_region db bid r)"
proof -
  have "found = map br_business_id
      (filter (or_all (map (\<lambda>i. eq br_region_id i) ids)) (business_regions db))"
    using assms by (simp add: regionBusinesses_def split: if_splits)
  then show ?thesis by (simp only: set_region_rows)
qed

lemma filter_by_categories_admits:
  assumes "\<And>e. filter_by_categories db filters \<noteq> Failed e"
  shows "carries_on (filter_by_categories db filters)
     \<and> admits (filter_by_categories db filters) bid =
        (has_items (f_categories filters) \<longrightarrow>
           (\<exists>c \<in> set (the (f_categories filters)). holds_category db bid c))"
proof (cases "has_items (f_categories filters)")
  case False
  then show ?thesis
    by (simp add: filter_by_categories_def admits_def carries_on_def)
next
  case True
  show ?thesis
  proof (cases "categoryBusinesses db (the (f_categories filters))")
    case (Inl err)
    then have "filter_by_categories db filters = Failed err"
      using True by (simp add: filter_by_categories_def)
    then show ?thesis using assms by blast
  next
    case (Inr found)
    from set_categoryBusinesses [OF this, of bid] show ?thesis
      using True Inr
      by (cases "found = []")
         (simp_all add: filter_by_categories_def admits_def carries_on_def)
  qed
qed

lemma set_intersect_ids:
  "(bid \<in> set (intersect_ids businessIds found)) =
     (admits (Ids businessIds) bid \<and> bid \<in> set found)"
  by (auto simp: intersect_ids_def admits_def split: option.splits)

lemma filter_by_amenities_admits:
  assumes "\<And>e. filter_by_amenities db filters businessIds \<noteq> Failed e"
    and "carries_on (Ids businessIds)"
  shows "carries_on (filter_by_amenities db filters businessIds)
     \<and> admits (filter_by_amenities db filters businessIds) bid =
        (admits (Ids businessIds) bid \<and>
         (has_items (f_amenities filters) \<longrightarrow>
            (\<exists>a \<in> set (the (f_amenities filters)). holds_amenity db bid a)))"
proof (cases "has_items (f_amenities filters)")
  case False
  then show ?thesis
    using assms(2) by (simp add: filter_by_amenities_def)
next
  case True
  show ?thesis
  proof (cases "amenityBusinesses db (the (f_amenities filters))")
    case (Inl err)
    then have "filter_by_amenities db filters businessIds = Failed err"
      using True by (simp add: filter_by_amenities_def)
    then show ?thesis using assms(1) by blast
  next
    case (Inr found)
    have member: "(bid \<in> set (intersect_ids businessIds found)) =
        (admits (Ids businessIds) bid \<and>
         (\<exists>a \<in> set (the (f_amenities filters)). holds_amenity db bid a))"
      by (simp only: set_intersect_ids set_amenityBusinesses [OF Inr])
    show ?thesis
      using member True Inr
      by (cases "intersect_ids businessIds found = []")
         (simp_all add: filter_by_amenities_def admits_def carries_on_def)
  qed
qed

lemma filter_by_regions_admits:
  assumes "\<And>e. filter_by_regions db filters businessIds \<noteq> Failed e"
    and "carries_on (Ids businessIds)"
  shows "carries_on (filter_by_regions db filters businessIds)
     \<and> admits (filter_by_regions db filters businessIds) bid =
        (admits (Ids businessIds) bid \<and>
         (has_items (f_regions filters) \<longrightarrow>
            (\<exists>r \<in> set (the (f_regions filters)). holds_region db bid r)))"
proof (cases "has_items (f_regions filters)")
  case False
  then show ?thesis
    using assms(2) by (simp add: filter_by_regions_def)
next
  case True
  show ?thesis
  proof (cases "regionBusinesses db (the (f_regions filters))")
    case (Inl err)
    then have "filter_by_regions db filters businessIds = Failed err"
      using True by (simp add: filter_by_regions_def)
    then show ?thesis using assms(1) by blast
  next
    case (Inr found)
    have member: "(bid \<in> set (intersect_ids businessIds found)) =
        (admits (Ids businessIds) bid \<and>
         (\<exists>r \<in> set (the (f_regions filters)). holds_region db bid r))"
      by (simp only: set_intersect_ids set_regionBusinesses [OF Inr])
    show ?thesis
      using member True Inr
      by (cases "intersect_ids businessIds found = []")
         (simp_all add: filter_by_regions_def admits_def carries_on_def)
  qed
qed

lemma resolve_admits:
  assumes "\<And>e. resolve_business_ids db filters \<noteq> Failed e"
  shows "carries_on (resolve_business_ids db filters)
     \<and> admits (resolve_business_ids db filters) bid = facet_match db filters bid"
proof (cases "filter_by_categories db filters")
  case (Failed err)
  then have "resolve_business_ids db filters = Failed err"
    by (simp add: resolve_business_ids_def)
  then show ?thesis using assms by blast
next
  case NoMatch
  with filter_by_categories_admits [of db filters bid] show ?thesis
    by (simp add: resolve_business_ids_def facet_match_def admits_def carries_on_def)
next
  case c: (Ids ids1)
  with filter_by_categories_admits [of db filters bid]
  have c_ok: "carries_on (Ids ids1)"
    and c_admits: "admits (Ids ids1) bid =
        (has_items (f_categories filters) \<longrightarrow>
           (\<exists>c \<in> set (the (f_categories filters)). holds_category db bid c))"
    by simp_all
  show ?thesis
  proof (cases "filter_by_amenities db filters ids1")
    case (Failed err)
    then have "resolve_business_ids db filters = Failed err"
      using c by (simp add: resolve_business_ids_def)
    then show ?thesis using assms by blast
  next
    case NoMatch
    with filter_by_amenities_admits [of db filters ids1 bid] c_ok
    have "\<not> (admits (Ids ids1) bid \<and>
         (has_items (f_amenities filters) \<longrightarrow>
            (\<exists>a \<in> set (the (f_amenities filters)). holds_amenity db bid a)))"
      by (simp add: admits_def)
    then have "\<not> facet_match db filters bid"
      unfolding c_admits facet_match_def by blast
    moreover have "resolve_business_ids db filters = NoMatch"
      using c NoMatch by (simp add: resolve_business_ids_def)
    ultimately show ?thesis
      by (simp add: admits_def carries_on_def)
  next
    case a: (Ids ids2)
    with filter_by_amenities_admits [of db filters ids1 bid] c_ok
    have a_ok: "carries_on (Ids ids2)"
      and a_admits: "admits (Ids ids2) bid =
        (admits (Ids ids1) bid \<and>
         (has_items (f_amenities filters) \<longrightarrow>
            (\<exists>a \<in> set (the (f_amenities filters)). holds_amenity db bid a)))"
      by simp_all
    have r: "resolve_business_ids db filters = filter_by_regions db filters ids2"
      using c a by (simp add: resolve_business_ids_def)
    with assms have "\<And>e. filter_by_regions db filters ids2 \<noteq> Failed e"
      by simp
    from filter_by_regions_admits [OF this a_ok, of bid] show ?thesis
      by (simp only: r a_admits c_admits facet_match_def conj_assoc)
  qed
qed

lemma resolve_cases:
  obtains (failed) e where "resolve_business_ids db filters = Failed e"
  | (no_match) "resolve_business_ids db filters = NoMatch" "\<And>bid. \<not> facet_match db filters bid"
  | (unrestricted) "resolve_business_ids db filters = Ids None" "\<And>bid. facet_match db filters bid"
  | (restricted) ids where "resolve_business_ids db filters = Ids (Some ids)" "ids \<noteq> []"
      "\<And>bid. (bid \<in> set ids) = facet_match db filters bid"
proof (cases "resolve_business_ids db filters")
  case (Failed e)
  then show ?thesis by (rule failed)
next
  case NoMatch
  then have "\<not> facet_match db filters bid" for bid
    using resolve_admits [of db filters bid] by (simp add: admits_def)
  with NoMatch show ?thesis by (rule no_match)
next
  case (Ids x)
  show ?thesis
  proof (cases x)
    case None
    then have "facet_match db filters bid" for bid
      using Ids resolve_admits [of db filters bid] by (simp add: admits_def)
    with Ids None show ?thesis using unrestricted by blast
  next
    case (Some ids)
    then have "ids \<noteq> []" and "(bid \<in> set ids) = facet_match db filters bid" for bid
      using Ids resolve_admits [of db filters bid] by (simp_all add: admits_def carries_on_def)
    with Ids Some show ?thesis using restricted by blast
  qed
qed

lemma filter_False_conv: "(\<And>x. \<not> P x) \<Longrightarrow> filter P xs = []"
  by (induction xs) auto

lemma order_by_Nil: "order_by_featured_rating [] = []"
  by (simp add: order_by_featured_rating_def)

lemma limit_offset_Nil: "limit_offset l ofs [] = []"
  by (simp add: limit_offset_def)

lemma select_page_results:
  "select_page db conds pg =
     map (with_categories db) (limit_offset (p_limit pg) (p_offset pg)
       (order_by_featured_rating (filter (and_all conds) (businesses db))))"
  by (simp add: select_page_def)

text \<open>
  When a query returns, its rows are the listings that pass the conditions and the
  facets.
\<close>

lemma getBusinesses_results:
  assumes "getBusinesses db filters pg = Inr rs"
  shows "rs =
     map (with_categories db) (limit_offset (p_limit pg) (p_offset pg)
       (order_by_featured_rating
          (filter (\<lambda>b. and_all (getBusinesses_conditions filters) b
                       \<and> facet_match db filters (b_id b)) (businesses db))))"
proof (cases rule: resolve_cases [of db filters])
  case (failed e)
  then show ?thesis using assms by (simp add: getBusinesses_def)
next
  case no_match
  then show ?thesis
    using assms
    by (simp add: getBusinesses_def filter_False_conv order_by_Nil limit_offset_Nil)
next
  case unrestricted
  then show ?thesis using assms by (auto simp: getBusinesses_def select_page_results)
next
  case (restricted ids)
  then obtain condition where c: "id_condition db ids = Inr condition"
    and rs: "rs = select_page db (getBusinesses_conditions filters @ [condition]) pg"
    using assms by (auto simp: getBusinesses_def split: sum.splits)
  have "condition b = facet_match db filters (b_id b)" for b
    using id_condition_iff [OF c restricted(2)] restricted(3) by simp
  then show ?thesis
    by (simp add: rs select_page_results and_all_snoc)
qed

lemma searchBusinesses_results:
  assumes "searchBusinesses db query filters pg = Inr rs"
  shows "rs =
     map (with_categories db) (limit_offset (p_limit pg) (p_offset pg)
       (order_by_featured_rating
          (filter (\<lambda>b. and_all (searchBusinesses_conditions query filters) b
                       \<and> facet_match db filters (b_id b)) (businesses db))))"
proof (cases rule: resolve_cases [of db filters])
  case (failed e)
  then show ?thesis using assms by (simp add: searchBusinesses_def)
next
  case no_match
  then show ?thesis
    using assms
    by (simp add: searchBusinesses_def filter_False_conv order_by_Nil limit_offset_Nil)
next
  case unrestricted
  then show ?thesis using assms by (auto simp: searchBusinesses_def select_page_results)
next
  case (restricted ids)
  then obtain condition where c: "id_condition db ids = Inr condition"
    and rs: "rs = select_page db (searchBusinesses_conditions query filters @ [condition]) pg"
    using assms by (auto simp: searchBusinesses_def split: sum.splits)
  have "condition b = facet_match db filters (b_id b)" for b
    using id_condition_iff [OF c restricted(2)] restricted(3) by simp
  then show ?thesis
    by (simp add: rs select_page_results and_all_snoc)
qed

lemma getBusinessCount_results:
  assumes "getBusinessCount db filters = Inr n"
  shows "n =
     length (filter (\<lambda>b. and_all (getBusinessCount_conditions filters) b
                       \<and> facet_match db filters (b_id b)) (businesses db))"
proof (cases rule: resolve_cases [of db filters])
  case (failed e)
  then show ?thesis using assms by (simp add: getBusinessCount_def)
next
  case no_match
  then show ?thesis using assms by (simp add: getBusinessCount_def filter_False_conv)
next
  case unrestricted
  then show ?thesis using assms by (auto simp: getBusinessCount_def select_count_def)
next
  case (restricted ids)
  then obtain condition where c: "id_condition db ids = Inr condition"
    and n: "n = select_count db (getBusinessCount_conditions filters @ [condition])"
    using assms by (auto simp: getBusinessCount_def split: sum.splits)
  have "condition b = facet_match db filters (b_id b)" for b
    using id_condition_iff [OF c restricted(2)] restricted(3) by simp
  then show ?thesis
    by (simp add: n select_count_def and_all_snoc)
qed

lemma getSearchCount_results:
  assumes "getSearchCount db query filters = Inr n"
  shows "n =
     length (filter (\<lambda>b. and_all (searchBusinesses_conditions query filters) b
                       \<and> facet_match db filters (b_id b)) (businesses db))"
proof (cases rule: resolve_cases [of db filters])
  case (failed e)
  then show ?thesis using assms by (simp add: getSearchCount_def)
next
  case no_match
  then show ?thesis using assms by (simp add: getSearchCount_def filter_False_conv)
next
  case unrestricted
  then show ?thesis using assms by (auto simp: getSearchCount_def select_count_def)
next
  case (restricted ids)
  then obtain condition where c: "id_condition db ids = Inr condition"
    and n: "n = select_count db (searchBusinesses_conditions query filters @ [condition])"
    using assms by (auto simp: getSearchCount_def split: sum.splits)
  have "condition b = facet_match db filters (b_id b)" for b
    using id_condition_iff [OF c restricted(2)] restricted(3) by simp
  then show ?thesis
    by (simp add: n select_count_def and_all_snoc)
qed

subsection \<open>Ordering and paging\<close>

lemma set_insert_ordered: "set (insert_ordered x xs) = insert x (set xs)"
  by (induction xs) auto

lemma set_order_by: "set (order_by_featured_rating xs) = set xs"
  by (induction xs) (auto simp: order_by_featured_rating_def set_insert_ordered)

lemma length_insert_ordered: "length (insert_ordered x xs) = Suc (length xs)"
  by (induction xs) auto

lemma length_order_by: "length (order_by_featured_rating xs) = length xs"
  by (induction xs) (auto simp: order_by_featured_rating_def length_insert_ordered)

lemma precedes_total: "\<not> precedes x y \<Longrightarrow> precedes y x"
  by (auto simp: precedes_def)

lemma precedes_trans: "precedes x y \<Longrightarrow> precedes y z \<Longrightarrow> precedes x z"
  by (auto simp: precedes_def)

lemma sorted_insert_ordered:
  "sorted_wrt precedes xs \<Longrightarrow> sorted_wrt precedes (insert_ordered x xs)"
proof (induction xs)
  case Nil
  then show ?case by simp
next
  case (Cons y ys)
  show ?case
  proof (cases "precedes x y")
    case True
    with Cons.prems show ?thesis by (auto intro: precedes_trans)
  next
    case False
    with Cons show ?thesis
      by (auto simp: set_insert_ordered dest: precedes_total)
  qed
qed

lemma sorted_order_by: "sorted_wrt precedes (order_by_featured_rating xs)"
  by (induction xs) (auto simp: order_by_featured_rating_def sorted_insert_ordered)

lemma sorted_limit_offset: "sorted_wrt P xs \<Longrightarrow> sorted_wrt P (limit_offset l ofs xs)"
  by (simp add: limit_offset_def Let_def sorted_wrt_drop sorted_wrt_take)

lemma set_limit_offset: "set (limit_offset l ofs xs) \<subseteq> set xs"
  by (auto simp: limit_offset_def Let_def dest: in_set_takeD in_set_dropD)

lemma limit_offset_all:
  "ofs \<le> 0 \<Longrightarrow> l < 0 \<or> int (length xs) \<le> l \<Longrightarrow> limit_offset l ofs xs = xs"
  by (auto simp: limit_offset_def Let_def)

subsection \<open>The state map\<close>

lemma map_of_map_set: "map_of (map_set k v m) = (map_of m)(k \<mapsto> v)"
  by (induction m) (auto simp: fun_eq_iff)

lemma keys_map_set: "fst ` set (map_set k v m) = insert k (fst ` set m)"
  by (induction k v m rule: map_set.induct) (simp_all add: insert_commute)

lemma distinct_map_set: "distinct (map fst m) \<Longrightarrow> distinct (map fst (map_set k v m))"
proof (induction m)
  case Nil
  then show ?case by simp
next
  case (Cons p m)
  obtain k' v' where p: "p = (k', v')" by (cases p)
  show ?case
  proof (cases "k' = k")
    case True
    with Cons.prems p show ?thesis by simp
  next
    case False
    have "k' \<notin> fst ` set (map_set k v m)"
      using Cons.prems p False by (simp add: keys_map_set)
    with Cons p False show ?thesis by simp
  qed
qed

lemma distinct_add_business_count:
  "distinct (map fst m) \<Longrightarrow> distinct (map fst (foldl add_business_count m items))"
  by (induction items arbitrary: m) (simp_all add: add_business_count_def distinct_map_set)

lemma distinct_add_region_count:
  "distinct (map fst m) \<Longrightarrow> distinct (map fst (foldl add_region_count m items))"
  by (induction items arbitrary: m)
     (simp_all add: add_region_count_def distinct_map_set split: option.splits)

lemma map_of_add_business_count:
  "distinct (map fst items) \<Longrightarrow>
   map_of (foldl add_business_count m items) s =
     (case map_of items s of
        Some n \<Rightarrow> Some \<lparr>sc_business_count = n, sc_region_count = 0\<rparr>
      | None \<Rightarrow> map_of m s)"
proof (induction items arbitrary: m)
  case Nil
  then show ?case by simp
next
  case (Cons item items)
  obtain k n where item: "item = (k, n)" by (cases item)
  define m' where "m' = add_business_count m item"
  have fresh: "map_of items k = None"
    using Cons.prems item by (simp add: map_of_eq_None_iff)
  have step: "map_of m' = (map_of m)(k \<mapsto> \<lparr>sc_business_count = n, sc_region_count = 0\<rparr>)"
    by (simp add: m'_def item add_business_count_def map_of_map_set)
  have "map_of (foldl add_business_count m' items) s =
     (case map_of items s of
        Some n \<Rightarrow> Some \<lparr>sc_business_count = n, sc_region_count = 0\<rparr>
      | None \<Rightarrow> map_of m' s)"
    using Cons.prems by (intro Cons.IH) simp
  moreover have "foldl add_business_count m (item # items) = foldl add_business_count m' items"
    by (simp add: m'_def)
  ultimately show ?case
    using fresh step by (cases "s = k") (simp_all add: item split: option.splits)
qed

lemma map_of_add_region_count:
  "distinct (map fst items) \<Longrightarrow>
   map_of (foldl add_region_count m items) s =
     (case map_of items s of
        Some n \<Rightarrow> Some (case map_of m s of
                          Some e \<Rightarrow> e\<lparr>sc_region_count := n\<rparr>
                        | None \<Rightarrow> \<lparr>sc_business_count = 0, sc_region_count = n\<rparr>)
      | None \<Rightarrow> map_of m s)"
proof (induction items arbitrary: m)
  case Nil
  then show ?case by simp
next
  case (Cons item items)
  obtain k n where item: "item = (k, n)" by (cases item)
  define m' where "m' = add_region_count m item"
  have fresh: "map_of items k = None"
    using Cons.prems item by (simp add: map_of_eq_None_iff)
  have step: "map_of m' =
      (map_of m)(k \<mapsto> (case map_of m k of
                          Some e \<Rightarrow> e\<lparr>sc_region_count := n\<rparr>
                        | None \<Rightarrow> \<lparr>sc_business_count = 0, sc_region_count = n\<rparr>))"
    by (simp add: m'_def item add_region_count_def map_get_def map_of_map_set
        split: option.splits)
  have "map_of (foldl add_region_count m' items) s =
     (case map_of items s of
        Some n \<Rightarrow> Some (case map_of m' s of
                          Some e \<Rightarrow> e\<lparr>sc_region_count := n\<rparr>
                        | None \<Rightarrow> \<lparr>sc_business_count = 0, sc_region_count = n\<rparr>)
      | None \<Rightarrow> map_of m' s)"
    using Cons.prems by (intro Cons.IH) simp
  moreover have "foldl add_region_count m (item # items) = foldl add_region_count m' items"
    by (simp add: m'_def)
  ultimately show ?case
    using fresh step by (cases "s = k") (simp_all add: item split: option.splits)
qed

lemma distinct_group_by_state: "distinct (map fst (group_by_state col rows))"
  by (simp add: group_by_state_def comp_def)

lemma map_of_group_by_state:
  "map_of (group_by_state col rows) s =
     (if s \<in> col ` set rows then Some (length (filter (\<lambda>r. col r = s) rows)) else None)"
  by (simp add: group_by_state_def map_of_map_restrict restrict_map_def)

lemma set_insert_by: "set (insert_by cmp x xs) = insert x (set xs)"
  by (induction xs) auto

lemma set_js_sort: "set (js_sort cmp xs) = set xs"
  by (induction xs) (simp_all add: js_sort_def set_insert_by)

lemma distinct_map_insert_by:
  "distinct (map f (insert_by cmp x xs)) = (f x \<notin> f ` set xs \<and> distinct (map f xs))"
  by (induction xs) (auto simp: set_insert_by)

lemma distinct_map_js_sort: "distinct (map f (js_sort cmp xs)) = distinct (map f xs)"
  by (induction xs) (simp_all add: js_sort_def distinct_map_insert_by set_insert_by set_js_sort [unfolded js_sort_def])

lemma filter_key_unique:
  "distinct (map f xs) \<Longrightarrow> x \<in> set xs \<Longrightarrow> filter (\<lambda>y. f y = f x) xs = [x]"
proof (induction xs)
  case Nil
  then show ?case by simp
next
  case (Cons y ys)
  show ?case
  proof (cases "y = x")
    case True
    have "f x \<notin> f ` set ys"
      using Cons.prems(1) True by simp
    then have "filter (\<lambda>y. f y = f x) ys = []"
      by (auto simp: filter_empty_conv image_iff)
    with True show ?thesis by simp
  next
    case False
    with Cons show ?thesis by auto
  qed
qed

lemma eq_True: "eq col True = col"
  by (simp add: fun_eq_iff eq_def)

lemma filter_eq_active: "filter (eq b_is_active True) xs = filter b_is_active xs"
  by (simp add: eq_True)

lemma map_of_stateMap:
  assumes "s \<in> b_state ` {b \<in> set (businesses db). b_is_active b} \<union> r_state ` set (regions db)"
  shows "map_of (stateMap db) s =
     Some \<lparr>sc_business_count = length (filter (\<lambda>b. b_is_active b \<and> b_state b = s) (businesses db)),
           sc_region_count = length (filter (\<lambda>r. r_state r = s) (regions db))\<rparr>"
proof -
  have absent_b: "length (filter (\<lambda>b. b_is_active b \<and> b_state b = s) (businesses db)) = 0"
    if "s \<notin> b_state ` {b \<in> set (businesses db). b_is_active b}"
    using that by (auto simp: filter_empty_conv)
  have absent_r: "length (filter (\<lambda>r. r_state r = s) (regions db)) = 0"
    if "s \<notin> r_state ` set (regions db)"
    using that by (auto simp: filter_empty_conv)
  have conj: "filter (\<lambda>r. b_state r = s) (filter b_is_active (businesses db)) =
      filter (\<lambda>b. b_is_active b \<and> b_state b = s) (businesses db)"
    by simp
  show ?thesis
    unfolding stateMap_def Let_def
    using assms absent_b absent_r
    by (auto simp: map_of_add_region_count map_of_add_business_count distinct_group_by_state
        map_of_group_by_state filter_eq_active conj image_iff)
qed

lemma distinct_stateMap: "distinct (map fst (stateMap db))"
  unfolding stateMap_def Let_def
  by (intro distinct_add_region_count distinct_add_business_count) simp

subsection \<open>Which filter fields the queries read\<close>

lemma resolve_business_ids_cong:
  assumes "has_items (f_categories f) = has_items (f_categories g)"
    and "has_items (f_categories g) \<Longrightarrow> f_categories f = f_categories g"
    and "has_items (f_amenities f) = has_items (f_amenities g)"
    and "has_items (f_amenities g) \<Longrightarrow> f_amenities f = f_amenities g"
    and "has_items (f_regions f) = has_items (f_regions g)"
    and "has_items (f_regions g) \<Longrightarrow> f_regions f = f_regions g"
  shows "resolve_business_ids db f = resolve_business_ids db g"
proof -
  have c: "filter_by_categories db f = filter_by_categories db g"
    using assms(1,2) by (simp add: filter_by_categories_def)
  have a: "filter_by_amenities db f ids = filter_by_amenities db g ids" for ids
    using assms(3,4) by (simp add: filter_by_amenities_def)
  have r: "filter_by_regions db f ids = filter_by_regions db g ids" for ids
    using assms(5,6) by (simp add: filter_by_regions_def)
  show ?thesis by (simp add: resolve_business_ids_def c a r split: facet_outcome.splits)
qed

lemma Simple_facets_cong:
  assumes "has_items (f_categories f) = has_items (f_categories g)"
    and "has_items (f_categories g) \<Longrightarrow> f_categories f = f_categories g"
    and "has_items (f_amenities f) = has_items (f_amenities g)"
    and "has_items (f_amenities g) \<Longrightarrow> f_amenities f = f_amenities g"
    and "has_items (f_regions f) = has_items (f_regions g)"
    and "has_items (f_regions g) \<Longrightarrow> f_regions f = f_regions g"
  shows "Simple_facets db f rows = Simple_facets db g rows"
proof -
  have c: "(if has_items (f_categories f)
        then keep_included (getBusinessesWithCategories db (map b_id rs))
               (the (f_categories f)) rs
        else Inr rs) =
      (if has_items (f_categories g)
        then keep_included (getBusinessesWithCategories db (map b_id rs))
               (the (f_categories g)) rs
        else Inr rs)" for rs
    using assms(1,2) by (cases "has_items (f_categories g)") simp_all
  have a: "(if has_items (f_amenities f)
        then keep_included (getBusinessesWithAmenities db (map b_id rs))
               (the (f_amenities f)) rs
        else Inr rs) =
      (if has_items (f_amenities g)
        then keep_included (getBusinessesWithAmenities db (map b_id rs))
               (the (f_amenities g)) rs
        else Inr rs)" for rs
    using assms(3,4) by (cases "has_items (f_amenities g)") simp_all
  have r: "(if has_items (f_regions f)
        then keep_included (getBusinessesWithRegions db (map b_id rs))
               (the (f_regions f)) rs
        else Inr rs) =
      (if has_items (f_regions g)
        then keep_included (getBusinessesWithRegions db (map b_id rs))
               (the (f_regions g)) rs
        else Inr rs)" for rs
    using assms(5,6) by (cases "has_items (f_regions g)") simp_all
  show ?thesis by (simp only: Simple_facets_def c a r)
qed

lemma Real_from_cong:
  assumes "has_items (f_categories f) = has_items (f_categories g)"
    and "has_items (f_amenities f) = has_items (f_amenities g)"
    and "has_items (f_regions f) = has_items (f_regions g)"
  shows "Real_from db f = Real_from db g"
  using assms by (simp add: Real_from_def)

lemma Real_facet_conditions_cong:
  assumes "has_items (f_categories f) = has_items (f_categories g)"
    and "has_items (f_categories g) \<Longrightarrow> f_categories f = f_categories g"
    and "has_items (f_amenities f) = has_items (f_amenities g)"
    and "has_items (f_amenities g) \<Longrightarrow> f_amenities f = f_amenities g"
    and "has_items (f_regions f) = has_items (f_regions g)"
    and "has_items (f_regions g) \<Longrightarrow> f_regions f = f_regions g"
  shows "Real_facet_conditions f = Real_facet_conditions g"
  using assms by (simp add: Real_facet_conditions_def)

lemma truthy_number_Some_zero: "truthy_number (Some 0) = False"
  by (simp add: truthy_number_def)

lemma truthy_number_None: "truthy_number None = False"
  by (simp add: truthy_number_def)

lemma has_items_Some_Nil: "has_items (Some []) = False"
  by (simp add: has_items_def)

lemma has_items_None: "has_items None = False"
  by (simp add: has_items_def)

lemma all_agree:
  assumes conds: "getBusinesses_conditions f = getBusinesses_conditions g"
    and count_conds: "getBusinessCount_conditions f = getBusinessCount_conditions g"
    and "has_items (f_categories f) = has_items (f_categories g)"
    and "has_items (f_categories g) \<Longrightarrow> f_categories f = f_categories g"
    and "has_items (f_amenities f) = has_items (f_amenities g)"
    and "has_items (f_amenities g) \<Longrightarrow> f_amenities f = f_amenities g"
    and "has_items (f_regions f) = has_items (f_regions g)"
    and "has_items (f_regions g) \<Longrightarrow> f_regions f = f_regions g"
    and real_where: "Real_getBusinesses_where f = Real_getBusinesses_where g"
    and real_count_where: "Real_getBusinessCount_where f = Real_getBusinessCount_where g"
  shows "getBusinesses db f pg = getBusinesses db g pg
   \<and> getBusinessCount db f = getBusinessCount db g
   \<and> Simple_getBusinesses db f pg = Simple_getBusinesses db g pg
   \<and> Simple_getBusinessCount db f = Simple_getBusinessCount db g
   \<and> Real_getBusinesses db f pg = Real_getBusinesses db g pg
   \<and> Real_getBusinessCount db f = Real_getBusinessCount db g"
proof -
  have resolve: "resolve_business_ids db f = resolve_business_ids db g"
    using assms(3-8) by (rule resolve_business_ids_cong)
  have facets: "Simple_facets db f rows = Simple_facets db g rows" for rows
    using assms(3-8) by (rule Simple_facets_cong)
  have "from": "Real_from db f = Real_from db g"
    using assms(3,5,7) by (rule Real_from_cong)
  have "getBusinesses db f pg = getBusinesses db g pg"
    by (simp only: getBusinesses_def conds resolve)
  moreover have "getBusinessCount db f = getBusinessCount db g"
    by (simp only: getBusinessCount_def count_conds resolve)
  moreover have "Simple_getBusinesses db f pg = Simple_getBusinesses db g pg"
    by (simp only: Simple_getBusinesses_def conds facets)
  moreover have "Simple_getBusinessCount db f = Simple_getBusinessCount db g"
    by (simp only: Simple_getBusinessCount_def count_conds facets)
  moreover have "Real_getBusinesses db f pg = Real_getBusinesses db g pg"
    by (simp only: Real_getBusinesses_def real_where "from")
  moreover have "Real_getBusinessCount db f = Real_getBusinessCount db g"
    by (simp only: Real_getBusinessCount_def real_count_where "from")
  ultimately show ?thesis by blast
qed

lemmas filter_reading_defs = getBusinesses_conditions_def getBusinessCount_conditions_def
  Real_getBusinesses_where_def Real_getBusinessCount_where_def Real_facet_conditions_def

subsection \<open>What the in-memory facet filter keeps\<close>

lemma held_push_member:
  "held (push_member m row) k = held m k @ (if fst row = k then [snd row] else [])"
  by (simp add: held_def push_member_def Let_def split: option.splits)

lemma held_foldl_push_member:
  "held (foldl push_member m rows) k = held m k @ map snd (filter (\<lambda>row. fst row = k) rows)"
  by (induction rows arbitrary: m) (simp_all add: held_push_member)

lemma held_empty: "held Map.empty k = []"
  by (simp add: held_def)

lemma held_members:
  "held (foldl push_member Map.empty (map (\<lambda>m. (owner m, facet m)) (filter P rows))) k =
     map facet (filter (\<lambda>m. P m \<and> owner m = k) rows)"
  by (induction rows) (simp_all add: held_foldl_push_member held_empty)

lemma some_included_held:
  "some_included m wanted b = (\<exists>x \<in> set wanted. x \<in> set (held m (b_id b)))"
  by (simp add: some_included_def Let_def list_ex_iff)

lemma some_included_categories:
  assumes "getBusinessesWithCategories db ids = Inr m"
  shows "some_included m wanted b =
     (b_id b \<in> set ids \<and> (\<exists>c \<in> set wanted. holds_category db (b_id b) c))"
proof (cases "ids = []")
  case True
  then have "m = Map.empty"
    using assms by (simp add: getBusinessesWithCategories_def)
  then show ?thesis
    using True by (simp add: some_included_held held_empty)
next
  case False
  then have "m = foldl push_member Map.empty
      (map (\<lambda>bc. (bc_business_id bc, bc_category_id bc))
         (filter (or_all (map (\<lambda>i. eq bc_business_id i) ids)) (business_categories db)))"
    using assms by (simp add: getBusinessesWithCategories_def split: if_splits)
  then have "set (held m (b_id b)) = {c. b_id b \<in> set ids \<and> holds_category db (b_id b) c}"
    by (auto simp: held_members or_all_eq_map holds_category_def)
  then show ?thesis by (auto simp: some_included_held)
qed

lemma some_included_amenities:
  assumes "getBusinessesWithAmenities db ids = Inr m"
  shows "some_included m wanted b =
     (b_id b \<in> set ids \<and> (\<exists>a \<in> set wanted. holds_amenity db (b_id b) a))"
proof (cases "ids = []")
  case True
  then have "m = Map.empty"
    using assms by (simp add: getBusinessesWithAmenities_def)
  then show ?thesis
    using True by (simp add: some_included_held held_empty)
next
  case False
  then have "m = foldl push_member Map.empty
      (map (\<lambda>ba. (ba_business_id ba, ba_amenity_id ba))
         (filter (or_all (map (\<lambda>i. eq ba_business_id i) ids)) (business_amenities db)))"
    using assms by (simp add: getBusinessesWithAmenities_def split: if_splits)
  then have "set (held m (b_id b)) = {a. b_id b \<in> set ids \<and> holds_amenity db (b_id b) a}"
    by (auto simp: held_members or_all_eq_map holds_amenity_def)
  then show ?thesis by (auto simp: some_included_held)
qed

lemma some_included_regions:
  assumes "getBusinessesWithRegions db ids = Inr m"
  shows "some_included m wanted b =
     (b_id b \<in> set ids \<and> (\<exists>r \<in> set wanted. holds_region db (b_id b) r))"
proof (cases "ids = []")
  case True
  then have "m = Map.empty"
    using assms by (simp add: getBusinessesWithRegions_def)
  then show ?thesis
    using True by (simp add: some_included_held held_empty)
next
  case False
  then have "m = foldl push_member Map.empty
      (map (\<lambda>br. (br_business_id br, br_region_id br))
         (filter (or_all (map (\<lambda>i. eq br_business_id i) ids)) (business_regions db)))"
    using assms by (simp add: getBusinessesWithRegions_def split: if_splits)
  then have "set (held m (b_id b)) = {r. b_id b \<in> set ids \<and> holds_region db (b_id b) r}"
    by (auto simp: held_members or_all_eq_map holds_region_def)
  then show ?thesis by (auto simp: some_included_held)
qed

lemma keep_categories:
  assumes "keep_included (getBusinessesWithCategories db (map b_id rows)) wanted rows = Inr kept"
  shows "kept = filter (\<lambda>b. \<exists>c \<in> set wanted. holds_category db (b_id b) c) rows"
proof -
  obtain m where m: "getBusinessesWithCategories db (map b_id rows) = Inr m"
    and kept: "kept = filter (some_included m wanted) rows"
    using assms by (auto simp: keep_included_def split: sum.splits)
  show ?thesis
    unfolding kept by (rule filter_cong) (auto simp: some_included_categories [OF m])
qed

lemma keep_amenities:
  assumes "keep_included (getBusinessesWithAmenities db (map b_id rows)) wanted rows = Inr kept"
  shows "kept = filter (\<lambda>b. \<exists>a \<in> set wanted. holds_amenity db (b_id b) a) rows"
proof -
  obtain m where m: "getBusinessesWithAmenities db (map b_id rows) = Inr m"
    and kept: "kept = filter (some_included m wanted) rows"
    using assms by (auto simp: keep_included_def split: sum.splits)
  show ?thesis
    unfolding kept by (rule filter_cong) (auto simp: some_included_amenities [OF m])
qed

lemma keep_regions:
  assumes "keep_included (getBusinessesWithRegions db (map b_id rows)) wanted rows = Inr kept"
  shows "kept = filter (\<lambda>b. \<exists>r \<in> set wanted. holds_region db (b_id b) r) rows"
proof -
  obtain m where m: "getBusinessesWithRegions db (map b_id rows) = Inr m"
    and kept: "kept = filter (some_included m wanted) rows"
    using assms by (auto simp: keep_included_def split: sum.splits)
  show ?thesis
    unfolding kept by (rule filter_cong) (auto simp: some_included_regions [OF m])
qed

lemma Simple_facets_filter:
  assumes "Simple_facets db filters rows = Inr kept"
  shows "kept = filter (\<lambda>b. facet_match db filters (b_id b)) rows"
proof -
  let ?C = "\<lambda>b. has_items (f_categories filters) \<longrightarrow>
      (\<exists>c \<in> set (the (f_categories filters)). holds_category db (b_id b) c)"
  let ?A = "\<lambda>b. has_items (f_amenities filters) \<longrightarrow>
      (\<exists>a \<in> set (the (f_amenities filters)). holds_amenity db (b_id b) a)"
  let ?R = "\<lambda>b. has_items (f_regions filters) \<longrightarrow>
      (\<exists>r \<in> set (the (f_regions filters)). holds_region db (b_id b) r)"
  obtain rows1 rows2 where
    c: "(if has_items (f_categories filters)
         then keep_included (getBusinessesWithCategories db (map b_id rows))
                (the (f_categories filters)) rows
         else Inr rows) = Inr rows1"
    and a: "(if has_items (f_amenities filters)
         then keep_included (getBusinessesWithAmenities db (map b_id rows1))
                (the (f_amenities filters)) rows1
         else Inr rows1) = Inr rows2"
    and r: "(if has_items (f_regions filters)
         then keep_included (getBusinessesWithRegions db (map b_id rows2))
                (the (f_regions filters)) rows2
         else Inr rows2) = Inr kept"
    using assms unfolding Simple_facets_def by (auto split: sum.splits)
  have "rows1 = filter ?C rows"
    using c keep_categories by (cases "has_items (f_categories filters)") auto
  moreover have "rows2 = filter ?A rows1"
    using a keep_amenities by (cases "has_items (f_amenities filters)") auto
  moreover have "kept = filter ?R rows2"
    using r keep_regions by (cases "has_items (f_regions filters)") auto
  ultimately have "kept = filter ?R (filter ?A (filter ?C rows))"
    by simp
  also have "\<dots> = filter (\<lambda>b. facet_match db filters (b_id b)) rows"
    unfolding filter_filter by (rule filter_cong) (auto simp: facet_match_def)
  finally show ?thesis .
qed

lemma Simple_getBusinesses_results:
  assumes "Simple_getBusinesses db filters pg = Inr rs"
  shows "rs = map (with_categories db)
     (js_slice (filter (\<lambda>b. facet_match db filters (b_id b))
         (order_by_featured_rating
            (filter (and_all (getBusinesses_conditions filters)) (businesses db))))
        (p_offset pg) (p_offset pg + p_limit pg))"
proof -
  obtain kept where kept: "Simple_facets db filters
      (order_by_featured_rating
         (filter (and_all (getBusinesses_conditions filters)) (businesses db))) = Inr kept"
    and rs: "rs = map (with_categories db) (js_slice kept (p_offset pg) (p_offset pg + p_limit pg))"
    using assms by (auto simp: Simple_getBusinesses_def Let_def split: if_splits sum.splits)
  show ?thesis
    unfolding rs by (simp only: Simple_facets_filter [OF kept])
qed

subsection \<open>Pages of the three implementations\<close>

lemma res_business_with_categories: "map (res_business \<circ> with_categories db) xs = xs"
  by (induction xs) (simp_all add: with_categories_def)

lemma sorted_js_slice: "sorted_wrt P xs \<Longrightarrow> sorted_wrt P (js_slice xs start stop)"
  by (simp add: js_slice_def Let_def sorted_wrt_drop sorted_wrt_take)

lemma sorted_getBusinesses:
  "getBusinesses db filters pg = Inr rs \<Longrightarrow> sorted_wrt precedes (map res_business rs)"
  by (drule getBusinesses_results)
     (simp add: res_business_with_categories sorted_limit_offset sorted_order_by)

lemma sorted_searchBusinesses:
  "searchBusinesses db query filters pg = Inr rs \<Longrightarrow> sorted_wrt precedes (map res_business rs)"
  by (drule searchBusinesses_results)
     (simp add: res_business_with_categories sorted_limit_offset sorted_order_by)

lemma sorted_Simple_getBusinesses:
  "Simple_getBusinesses db filters pg = Inr rs \<Longrightarrow> sorted_wrt precedes (map res_business rs)"
  by (drule Simple_getBusinesses_results)
     (simp add: res_business_with_categories sorted_js_slice sorted_wrt_filter sorted_order_by)

lemma sorted_Real_getBusinesses:
  "sorted_wrt precedes (map res_business (Real_getBusinesses db filters pg))"
  by (simp add: Real_getBusinesses_def Let_def res_business_with_categories sorted_limit_offset
      sorted_order_by)

lemma getBusinessBySlug_first:
  "getBusinessBySlug db slug =
     (case filter (\<lambda>b. b_slug b = slug \<and> b_is_active b) (businesses db) of
        [] \<Rightarrow> None
      | business # _ \<Rightarrow>
          Some \<lparr>det_business = business,
                det_categories = businessCategories db (b_id business),
                det_amenities = businessAmenities db (b_id business),
                det_regions = businessRegions db (b_id business)\<rparr>)"
proof -
  have conds: "and_all [eq b_slug slug, eq b_is_active True] =
      (\<lambda>b. b_slug b = slug \<and> b_is_active b)"
    by (simp add: fun_eq_iff and_all_def eq_def)
  show ?thesis
    by (cases "filter (\<lambda>b. b_slug b = slug \<and> b_is_active b) (businesses db)")
       (simp_all add: getBusinessBySlug_def limit_offset_def conds)
qed

lemma getBusinessBySlug_Some:
  assumes "getBusinessBySlug db slug = Some d"
  shows "det_business d \<in> set (businesses db) \<and> b_slug (det_business d) = slug
         \<and> b_is_active (det_business d)"
proof -
  obtain business rest where
    rows: "filter (\<lambda>b. b_slug b = slug \<and> b_is_active b) (businesses db) = business # rest"
    and d: "det_business d = business"
    using assms by (auto simp: getBusinessBySlug_first split: list.splits)
  have "business \<in> set (filter (\<lambda>b. b_slug b = slug \<and> b_is_active b) (businesses db))"
    by (simp add: rows)
  then show ?thesis by (simp add: d)
qed

lemma getBusinessBySlug_None:
  "(getBusinessBySlug db slug = None) =
     (slug \<notin> b_slug ` {b \<in> set (businesses db). b_is_active b})"
proof -
  have "(getBusinessBySlug db slug = None) =
      (filter (\<lambda>b. b_slug b = slug \<and> b_is_active b) (businesses db) = [])"
    by (simp add: getBusinessBySlug_first split: list.splits)
  also have "\<dots> = (slug \<notin> b_slug ` {b \<in> set (businesses db). b_is_active b})"
    by (auto simp: filter_empty_conv)
  finally show ?thesis .
qed

subsection \<open>Inactive listings take no part\<close>

lemma without_inactive_tables:
  "businesses (without_inactive db) = filter b_is_active (businesses db)"
  "categories (without_inactive db) = categories db"
  "amenities (without_inactive db) = amenities db"
  "regions (without_inactive db) = regions db"
  "business_categories (without_inactive db) = business_categories db"
  "business_amenities (without_inactive db) = business_amenities db"
  "business_regions (without_inactive db) = business_regions db"
  "exports_entity_names (without_inactive db) = exports_entity_names db"
  "flat_or_limit (without_inactive db) = flat_or_limit db"
  "nested_or_limit (without_inactive db) = nested_or_limit db"
  by (simp_all add: without_inactive_def)

lemma lookups_without_inactive:
  "categoryBusinesses (without_inactive db) = categoryBusinesses db"
  "amenityBusinesses (without_inactive db) = amenityBusinesses db"
  "regionBusinesses (without_inactive db) = regionBusinesses db"
  by (simp_all add: fun_eq_iff categoryBusinesses_def amenityBusinesses_def
      regionBusinesses_def without_inactive_tables)

lemma resolve_without_inactive:
  "resolve_business_ids (without_inactive db) filters = resolve_business_ids db filters"
  by (simp only: resolve_business_ids_def filter_by_categories_def filter_by_amenities_def
      filter_by_regions_def lookups_without_inactive)

lemma id_condition_without_inactive:
  "id_condition (without_inactive db) ids = id_condition db ids"
  by (simp add: id_condition_def without_inactive_tables)

lemma with_categories_without_inactive:
  "with_categories (without_inactive db) = with_categories db"
  by (simp add: fun_eq_iff with_categories_def businessCategories_def without_inactive_tables)

lemma getBusinesses_conditions_active:
  "and_all (getBusinesses_conditions filters) b \<Longrightarrow> b_is_active b"
  by (simp add: getBusinesses_conditions_def and_all_def eq_def)

lemma getBusinessCount_conditions_active:
  "and_all (getBusinessCount_conditions filters) b \<Longrightarrow> b_is_active b"
  by (simp add: getBusinessCount_conditions_def and_all_def eq_def)

lemma searchBusinesses_conditions_active:
  "and_all (searchBusinesses_conditions query filters) b \<Longrightarrow> b_is_active b"
  by (simp add: searchBusinesses_conditions_def and_all_def eq_def Let_def)

lemma filter_without_inactive:
  assumes "\<And>b. P b \<Longrightarrow> b_is_active b"
  shows "filter P (businesses (without_inactive db)) = filter P (businesses db)"
proof -
  have "filter (\<lambda>b. b_is_active b \<and> P b) (businesses db) = filter P (businesses db)"
    by (rule filter_cong) (auto dest: assms)
  then show ?thesis by (simp add: without_inactive_tables)
qed

lemma select_page_without_inactive:
  assumes "\<And>b. and_all conds b \<Longrightarrow> b_is_active b"
  shows "select_page (without_inactive db) conds pg = select_page db conds pg"
    and "select_page (without_inactive db) (conds @ [c]) pg = select_page db (conds @ [c]) pg"
proof -
  have "filter (and_all conds) (businesses (without_inactive db)) =
      filter (and_all conds) (businesses db)"
    by (rule filter_without_inactive) (rule assms)
  then show "select_page (without_inactive db) conds pg = select_page db conds pg"
    by (simp only: select_page_def with_categories_without_inactive)
  have "filter (and_all (conds @ [c])) (businesses (without_inactive db)) =
      filter (and_all (conds @ [c])) (businesses db)"
    by (rule filter_without_inactive) (simp add: and_all_snoc assms)
  then show "select_page (without_inactive db) (conds @ [c]) pg = select_page db (conds @ [c]) pg"
    by (simp only: select_page_def with_categories_without_inactive)
qed

lemma select_count_without_inactive:
  assumes "\<And>b. and_all conds b \<Longrightarrow> b_is_active b"
  shows "select_count (without_inactive db) conds = select_count db conds"
    and "select_count (without_inactive db) (conds @ [c]) = select_count db (conds @ [c])"
proof -
  have "filter (and_all conds) (businesses (without_inactive db)) =
      filter (and_all conds) (businesses db)"
    by (rule filter_without_inactive) (rule assms)
  then show "select_count (without_inactive db) conds = select_count db conds"
    by (simp only: select_count_def)
  have "filter (and_all (conds @ [c])) (businesses (without_inactive db)) =
      filter (and_all (conds @ [c])) (businesses db)"
    by (rule filter_without_inactive) (simp add: and_all_snoc assms)
  then show "select_count (without_inactive db) (conds @ [c]) = select_count db (conds @ [c])"
    by (simp only: select_count_def)
qed

lemma getBusinesses_without_inactive:
  "getBusinesses (without_inactive db) filters pg = getBusinesses db filters pg"
  by (simp only: getBusinesses_def Let_def resolve_without_inactive id_condition_without_inactive
      select_page_without_inactive [OF getBusinesses_conditions_active])

lemma searchBusinesses_without_inactive:
  "searchBusinesses (without_inactive db) query filters pg = searchBusinesses db query filters pg"
  by (simp only: searchBusinesses_def Let_def resolve_without_inactive id_condition_without_inactive
      select_page_without_inactive [OF searchBusinesses_conditions_active])

lemma getBusinessCount_without_inactive:
  "getBusinessCount (without_inactive db) filters = getBusinessCount db filters"
  by (simp only: getBusinessCount_def Let_def resolve_without_inactive id_condition_without_inactive
      select_count_without_inactive [OF getBusinessCount_conditions_active])

lemma getSearchCount_without_inactive:
  "getSearchCount (without_inactive db) query filters = getSearchCount db query filters"
  by (simp only: getSearchCount_def Let_def resolve_without_inactive id_condition_without_inactive
      select_count_without_inactive [OF searchBusinesses_conditions_active])

lemma getBusinessBySlug_without_inactive:
  "getBusinessBySlug (without_inactive db) slug = getBusinessBySlug db slug"
proof -
  have "filter (\<lambda>b. b_slug b = slug \<and> b_is_active b) (businesses (without_inactive db)) =
        filter (\<lambda>b. b_slug b = slug \<and> b_is_active b) (businesses db)"
    by (rule filter_without_inactive) simp
  then show ?thesis
    by (simp only: getBusinessBySlug_first businessCategories_def businessAmenities_def
        businessRegions_def without_inactive_tables)
qed

lemma page_rows_active:
  assumes "b \<in> set (limit_offset l ofs (order_by_featured_rating (filter P rows)))"
  shows "P b"
proof -
  have "b \<in> set (order_by_featured_rating (filter P rows))"
    using assms by (rule subsetD [OF set_limit_offset])
  then show ?thesis by (simp add: set_order_by)
qed

lemma getBusinesses_active:
  assumes "getBusinesses db filters pg = Inr rs" and "r \<in> set rs"
  shows "b_is_active (res_business r)"
proof -
  obtain b where r: "r = with_categories db b"
    and "b \<in> set (limit_offset (p_limit pg) (p_offset pg)
       (order_by_featured_rating
          (filter (\<lambda>b. and_all (getBusinesses_conditions filters) b
                       \<and> facet_match db filters (b_id b)) (businesses db))))"
    using assms(2) unfolding getBusinesses_results [OF assms(1)] by auto
  then have "and_all (getBusinesses_conditions filters) b"
    using page_rows_active by blast
  then show ?thesis
    by (simp add: r with_categories_def getBusinesses_conditions_active)
qed

lemma searchBusinesses_active:
  assumes "searchBusinesses db query filters pg = Inr rs" and "r \<in> set rs"
  shows "b_is_active (res_business r)"
proof -
  obtain b where r: "r = with_categories db b"
    and "b \<in> set (limit_offset (p_limit pg) (p_offset pg)
       (order_by_featured_rating
          (filter (\<lambda>b. and_all (searchBusinesses_conditions query filters) b
                       \<and> facet_match db filters (b_id b)) (businesses db))))"
    using assms(2) unfolding searchBusinesses_results [OF assms(1)] by auto
  then have "and_all (searchBusinesses_conditions query filters) b"
    using page_rows_active by blast
  then show ?thesis
    by (simp add: r with_categories_def searchBusinesses_conditions_active)
qed

lemma active_and_conditions:
  assumes "\<And>b. and_all conds b \<Longrightarrow> b_is_active b"
  shows "filter (\<lambda>b. and_all conds b \<and> Q b) rows =
         filter (\<lambda>b. b_is_active b \<and> and_all conds b \<and> Q b) rows"
  by (rule filter_cong) (auto dest: assms)

subsection \<open>The page that holds every match\<close>

lemma and_all_getBusinesses_conditions:
  "and_all (getBusinesses_conditions filters) b = (b_is_active b \<and> scalar_match filters b)"
  by (simp add: getBusinesses_conditions_def and_all_def eq_def like_def gte_def
      scalar_match_def)

lemma js_slice_all: "int (length xs) \<le> stop \<Longrightarrow> js_slice xs 0 stop = xs"
  by (simp add: js_slice_def Let_def)

lemma full_page:
  assumes "p_offset pg = 0" and "int (length (businesses db)) \<le> p_limit pg"
  shows "limit_offset (p_limit pg) (p_offset pg) (order_by_featured_rating (filter P (businesses db)))
         = order_by_featured_rating (filter P (businesses db))"
proof -
  have "length (filter P (businesses db)) \<le> length (businesses db)"
    by (rule length_filter_le)
  then have "int (length (order_by_featured_rating (filter P (businesses db)))) \<le> p_limit pg"
    using assms(2) unfolding length_order_by by linarith
  then show ?thesis
    using assms(1) by (simp add: limit_offset_all)
qed

lemma full_slice:
  assumes "p_offset pg = 0" and "int (length (businesses db)) \<le> p_limit pg"
  shows "js_slice (filter Q (order_by_featured_rating (filter P (businesses db))))
           (p_offset pg) (p_offset pg + p_limit pg)
         = filter Q (order_by_featured_rating (filter P (businesses db)))"
proof -
  have "length (filter Q (order_by_featured_rating (filter P (businesses db))))
      \<le> length (order_by_featured_rating (filter P (businesses db)))"
    by (rule length_filter_le)
  also have "\<dots> \<le> length (businesses db)"
    by (simp add: length_order_by)
  finally have "int (length (filter Q (order_by_featured_rating (filter P (businesses db)))))
      \<le> p_limit pg"
    using assms(2) by simp
  then show ?thesis
    using assms(1) by (simp add: js_slice_all)
qed

text \<open>
  Whenever the call returns a page that can hold every match, the page holds exactly the
  active listings that pass the scalar predicates and the facets.
\<close>

lemma facets_on_a_full_page:
  assumes "p_offset pg = 0" and "int (length (businesses db)) \<le> p_limit pg"
    and "getBusinesses db filters pg = Inr rs"
  shows "(b \<in> set (map res_business rs)) =
           (b \<in> set (businesses db) \<and> b_is_active b \<and> scalar_match filters b
            \<and> facet_match db filters (b_id b))"
proof -
  have "map res_business rs =
      order_by_featured_rating
        (filter (\<lambda>b. and_all (getBusinesses_conditions filters) b
                     \<and> facet_match db filters (b_id b)) (businesses db))"
    by (simp add: getBusinesses_results [OF assms(3)] res_business_with_categories
        full_page [OF assms(1,2)])
  then show ?thesis
    by (auto simp: set_order_by and_all_getBusinesses_conditions)
qed

lemma Simple_facets_on_a_full_page:
  assumes "p_offset pg = 0" and "int (length (businesses db)) \<le> p_limit pg"
    and "Simple_getBusinesses db filters pg = Inr rs"
  shows "(b \<in> set (map res_business rs)) =
           (b \<in> set (businesses db) \<and> b_is_active b \<and> scalar_match filters b
            \<and> facet_match db filters (b_id b))"
proof -
  have "map res_business rs =
      filter (\<lambda>b. facet_match db filters (b_id b))
        (order_by_featured_rating
           (filter (and_all (getBusinesses_conditions filters)) (businesses db)))"
    by (simp add: Simple_getBusinesses_results [OF assms(3)] res_business_with_categories
        full_slice [OF assms(1,2)])
  then show ?thesis
    by (auto simp: set_order_by and_all_getBusinesses_conditions)
qed

lemma length_filter_mono:
  "(\<And>x. P x \<Longrightarrow> Q x) \<Longrightarrow> length (filter P xs) \<le> length (filter Q xs)"
  by (induction xs) auto

lemma length_limit_offset: "length (limit_offset l ofs xs) \<le> length xs"
  by (auto simp: limit_offset_def Let_def min_def)

lemma count_conditions_weaker:
  "and_all (getBusinesses_conditions filters) b \<Longrightarrow> and_all (getBusinessCount_conditions filters) b"
  by (simp add: getBusinesses_conditions_def getBusinessCount_conditions_def and_all_def)

text \<open>
  The half of C1 that the code keeps: the two calls return or throw together, and no
  page is longer than the count.
\<close>

lemma page_and_count_return_together:
  "(\<exists>rs. getBusinesses db filters pg = Inr rs) = (\<exists>n. getBusinessCount db filters = Inr n)"
  by (auto simp: getBusinesses_def getBusinessCount_def Let_def
      split: facet_outcome.splits option.splits sum.splits)

lemma count_at_least_page:
  assumes "getBusinesses db filters pg = Inr rs" and "getBusinessCount db filters = Inr n"
  shows "length rs \<le> n"
proof -
  let ?rows = "filter (\<lambda>b. and_all (getBusinesses_conditions filters) b
      \<and> facet_match db filters (b_id b)) (businesses db)"
  have "length rs =
      length (limit_offset (p_limit pg) (p_offset pg) (order_by_featured_rating ?rows))"
    by (simp add: getBusinesses_results [OF assms(1)])
  also have "\<dots> \<le> length (order_by_featured_rating ?rows)"
    by (rule length_limit_offset)
  also have "\<dots> = length ?rows"
    by (rule length_order_by)
  also have "\<dots> \<le> n"
    unfolding getBusinessCount_results [OF assms(2)]
    by (rule length_filter_mono) (blast dest: count_conditions_weaker)
  finally show ?thesis .
qed

text \<open>A call with no facet sends no \<^verbatim>\<open>or\<close> to the store, and returns.\<close>

lemma resolve_without_facets:
  assumes "\<not> has_items (f_categories filters)" and "\<not> has_items (f_amenities filters)"
    and "\<not> has_items (f_regions filters)"
  shows "resolve_business_ids db filters = Ids None"
  using assms
  by (simp add: resolve_business_ids_def filter_by_categories_def filter_by_amenities_def
      filter_by_regions_def)

lemma calls_without_facets_return:
  assumes "\<not> has_items (f_categories filters)" and "\<not> has_items (f_amenities filters)"
    and "\<not> has_items (f_regions filters)"
  shows "getBusinesses db filters pg =
           Inr (select_page db (getBusinesses_conditions filters) pg)"
    and "searchBusinesses db query filters pg =
           Inr (select_page db (searchBusinesses_conditions query filters) pg)"
    and "getBusinessCount db filters =
           Inr (select_count db (getBusinessCount_conditions filters))"
    and "getSearchCount db query filters =
           Inr (select_count db (searchBusinesses_conditions query filters))"
  by (simp_all add: getBusinesses_def searchBusinesses_def getBusinessCount_def
      getSearchCount_def resolve_without_facets [OF assms])

section \<open>Unfolding the queries on a concrete store\<close>

lemmas truthy_defs = truthy_string_def truthy_number_def truthy_bool_def has_items_def

lemmas operator_defs = like_def eq_def gte_def and_all_def or_all_def or2_def lower_ascii_def
  precedes_def order_by_featured_rating_def limit_offset_def Let_def

lemmas resolve_defs = resolve_business_ids_def filter_by_categories_def filter_by_amenities_def
  filter_by_regions_def intersect_ids_def categoryBusinesses_def amenityBusinesses_def
  regionBusinesses_def id_condition_def

lemmas turso_defs = getBusinesses_def getBusinesses_conditions_def select_page_def
  with_categories_def businessCategories_def getBusinessCount_def getBusinessCount_conditions_def
  select_count_def searchBusinesses_def searchBusinesses_conditions_def search_group_def
  getSearchCount_def

lemmas simple_defs = Simple_getBusinesses_def Simple_getBusinessCount_def Simple_facets_def
  keep_included_def some_included_def held_def getBusinessesWithCategories_def
  getBusinessesWithAmenities_def getBusinessesWithRegions_def push_member_def js_slice_def
  getBusinesses_conditions_def getBusinessCount_conditions_def with_categories_def
  businessCategories_def

lemmas real_defs = Real_getBusinesses_def Real_getBusinessCount_def Real_getBusinesses_where_def
  Real_getBusinessCount_where_def Real_facet_conditions_def Real_from_def in_list_def
  with_categories_def businessCategories_def

lemmas store_defs = empty_store_def with_entity_names_def rated_store_def facet_store_def
  inactive_member_store_def duplicate_member_store_def states_store_def single_store_def
  shared_slug_store_def listing_def no_filters_def facet_filters_def first_page_def

lemma sql_like_alpha: "sql_like ''%alpha%'' ''alpha''"
  by (simp add: lower_ascii_def)

lemma sql_like_any: "sql_like ''%%'' s"
  by (induction s) simp_all

subsection \<open>The crowded store\<close>

lemma length_crowded_ids: "length (crowded_ids n) = n"
  by (simp add: crowded_ids_def)

lemma crowded_tables:
  "businesses (crowded_store n) =
     map (\<lambda>i. listing i (replicate (nat i) CHR ''v'') 4 True False) (crowded_ids n)"
  "business_categories (crowded_store n) =
     map (\<lambda>i. \<lparr>bc_business_id = i, bc_category_id = 1\<rparr>) (crowded_ids n)"
  "business_amenities (crowded_store n) =
     map (\<lambda>i. \<lparr>ba_business_id = i, ba_amenity_id = 1\<rparr>) (crowded_ids n)"
  "exports_entity_names (with_entity_names (crowded_store n))"
  "flat_or_limit (crowded_store n) = 999"
  "nested_or_limit (crowded_store n) = 88"
  by (simp_all add: crowded_store_def empty_store_def with_entity_names_def)

lemma with_entity_names_tables:
  "businesses (with_entity_names db) = businesses db"
  "business_categories (with_entity_names db) = business_categories db"
  "flat_or_limit (with_entity_names db) = flat_or_limit db"
  by (simp_all add: with_entity_names_def)

lemma crowded_filters_fields:
  "has_items (f_categories crowded_filters)" "the (f_categories crowded_filters) = [1]"
  "has_items (f_amenities crowded_filters)" "the (f_amenities crowded_filters) = [1]"
  "\<not> has_items (f_regions crowded_filters)"
  "getBusinesses_conditions crowded_filters = [eq b_is_active True]"
  by (simp_all add: crowded_filters_def no_filters_def has_items_def
      getBusinesses_conditions_def truthy_string_def truthy_number_def truthy_bool_def)

lemma crowded_categoryBusinesses:
  "categoryBusinesses (crowded_store n) [1] = Inr (crowded_ids n)"
  by (simp add: categoryBusinesses_def crowded_tables filter_map comp_def or_all_def eq_def)

lemma crowded_amenityBusinesses:
  "amenityBusinesses (crowded_store n) [1] = Inr (crowded_ids n)"
  by (simp add: amenityBusinesses_def crowded_tables filter_map comp_def or_all_def eq_def)

lemma crowded_resolve:
  assumes "0 < n"
  shows "resolve_business_ids (crowded_store n) crowded_filters = Ids (Some (crowded_ids n))"
proof -
  have nonempty: "crowded_ids n \<noteq> []"
    using assms length_crowded_ids [of n] by auto
  have c: "filter_by_categories (crowded_store n) crowded_filters = Ids (Some (crowded_ids n))"
    using nonempty
    by (simp add: filter_by_categories_def crowded_filters_fields crowded_categoryBusinesses)
  have a: "filter_by_amenities (crowded_store n) crowded_filters (Some (crowded_ids n)) =
      Ids (Some (crowded_ids n))"
    using nonempty
    by (simp add: filter_by_amenities_def crowded_filters_fields crowded_amenityBusinesses
        intersect_ids_def)
  have r: "filter_by_regions (crowded_store n) crowded_filters (Some (crowded_ids n)) =
      Ids (Some (crowded_ids n))"
    by (simp add: filter_by_regions_def crowded_filters_fields)
  show ?thesis
    by (simp add: resolve_business_ids_def c a r)
qed

lemma crowded_getBusinesses:
  assumes "88 \<le> n"
  shows "getBusinesses (crowded_store n) crowded_filters pg = Inl StatementRejected"
proof -
  have "0 < n" using assms by simp
  moreover have "id_condition (crowded_store n) (crowded_ids n) = Inl StatementRejected"
    using assms by (simp add: id_condition_def length_crowded_ids crowded_tables)
  ultimately show ?thesis
    using assms by (simp add: getBusinesses_def crowded_resolve length_crowded_ids)
qed

lemma crowded_Simple_getBusinesses:
  assumes "999 \<le> n"
  shows "Simple_getBusinesses (with_entity_names (crowded_store n)) crowded_filters pg =
     Inl StatementRejected"
proof -
  let ?db = "with_entity_names (crowded_store n)"
  let ?rows = "order_by_featured_rating
      (filter (and_all (getBusinesses_conditions crowded_filters)) (businesses ?db))"
  have "filter (and_all (getBusinesses_conditions crowded_filters)) (businesses ?db) =
      businesses ?db"
    by (simp add: crowded_filters_fields with_entity_names_tables crowded_tables and_all_def
        eq_def listing_def)
  then have "length (map b_id ?rows) = n"
    by (simp add: length_order_by with_entity_names_tables crowded_tables length_crowded_ids)
  then have "getBusinessesWithCategories ?db (map b_id ?rows) = Inl StatementRejected"
    using assms
    unfolding getBusinessesWithCategories_def
    by (simp only: with_entity_names_tables crowded_tables) simp
  then have "Simple_facets ?db crowded_filters ?rows = Inl StatementRejected"
    by (simp add: Simple_facets_def crowded_filters_fields keep_included_def)
  then show ?thesis
    by (simp add: Simple_getBusinesses_def Let_def crowded_tables)
qed

lemma one_in_crowded_ids: "0 < n \<Longrightarrow> 1 \<in> set (crowded_ids n)"
proof -
  assume "0 < n"
  then have "Suc 0 \<in> set [1..<Suc n]" by auto
  then have "int (Suc 0) \<in> set (crowded_ids n)"
    unfolding crowded_ids_def set_map by (rule imageI)
  then show ?thesis by simp
qed

lemma rated_page:
  "getBusinesses rated_store no_filters first_page =
     Inr (map (with_categories rated_store)
            [listing 3 ''gamma'' 5 True True, listing 2 ''beta'' 4 True False,
             listing 1 ''alpha'' 3 True False])"
  by (simp add: getBusinesses_def getBusinesses_conditions_def select_page_def resolve_defs
      truthy_defs operator_defs store_defs)

lemma rated_search_page:
  "searchBusinesses rated_store [] no_filters first_page =
     Inr (map (with_categories rated_store)
            [listing 3 ''gamma'' 5 True True, listing 2 ''beta'' 4 True False,
             listing 1 ''alpha'' 3 True False])"
  by (simp add: searchBusinesses_def searchBusinesses_conditions_def search_group_def
      select_page_def resolve_defs truthy_defs like_def eq_def and_all_def or_all_def
      precedes_def order_by_featured_rating_def limit_offset_def Let_def store_defs
      sql_like_any del: sql_like.simps)

section \<open>The claims\<close>

text \<open>
  C1.  The claim: \<^verbatim>\<open>getBusinessCount\<close> applies exactly the predicates of \<^verbatim>\<open>getBusinesses\<close>
  (the \<^verbatim>\<open>rating_min\<close> lower bound among them), so that the count equals the length of
  the list whenever the page can hold every match.  The code: on the store of active
  listings rated 3, 4 and 5 (and one inactive listing) with \<^verbatim>\<open>rating_min = 4\<close> and a page
  of ten, \<^verbatim>\<open>getBusinesses\<close> returns the two listings rated 5 and 4, and
  \<^verbatim>\<open>getBusinessCount\<close> returns 3: the count never reads \<^verbatim>\<open>rating_min\<close>.  The same
  holds for \<^verbatim>\<open>SimpleDatabase\<close>, where its table names are bound.
\<close>

theorem count_ignores_rating_min:
  "map_sum id (map (\<lambda>r. b_id (res_business r)))
     (getBusinesses rated_store (no_filters\<lparr>f_rating_min := Some 4\<rparr>) first_page) = Inr [3, 2]
   \<and> getBusinessCount rated_store (no_filters\<lparr>f_rating_min := Some 4\<rparr>) = Inr 3
   \<and> map_sum id (map (\<lambda>r. b_id (res_business r)))
     (Simple_getBusinesses (with_entity_names rated_store)
        (no_filters\<lparr>f_rating_min := Some 4\<rparr>) first_page) = Inr [3, 2]
   \<and> Simple_getBusinessCount (with_entity_names rated_store)
        (no_filters\<lparr>f_rating_min := Some 4\<rparr>) = Inr 3"
proof -
  have "map_sum id (map (\<lambda>r. b_id (res_business r)))
     (getBusinesses rated_store (no_filters\<lparr>f_rating_min := Some 4\<rparr>) first_page) = Inr [3, 2]"
    by (simp add: turso_defs resolve_defs truthy_defs operator_defs store_defs)
  moreover have "getBusinessCount rated_store (no_filters\<lparr>f_rating_min := Some 4\<rparr>) = Inr 3"
    by (simp add: turso_defs resolve_defs truthy_defs operator_defs store_defs)
  moreover have "map_sum id (map (\<lambda>r. b_id (res_business r)))
     (Simple_getBusinesses (with_entity_names rated_store)
        (no_filters\<lparr>f_rating_min := Some 4\<rparr>) first_page) = Inr [3, 2]"
    by (simp add: simple_defs truthy_defs operator_defs store_defs)
  moreover have "Simple_getBusinessCount (with_entity_names rated_store)
        (no_filters\<lparr>f_rating_min := Some 4\<rparr>) = Inr 3"
    by (simp add: simple_defs truthy_defs operator_defs store_defs)
  ultimately show ?thesis by simp
qed

text \<open>
  C2.  Every listing returned by \<^verbatim>\<open>getBusinesses\<close>, \<^verbatim>\<open>searchBusinesses\<close> or
  \<^verbatim>\<open>getBusinessBySlug\<close> has \<^verbatim>\<open>is_active = true\<close>.  A count that is returned is the
  number of active listings of the store that pass the conditions of the count and the
  facets of the filter, so no inactive listing is counted.  And an inactive listing takes
  no part in any outcome: removing the inactive listings from the store changes no result
  list, no detail result and no count (nor whether the call throws).
\<close>

theorem active_only:
  "(getBusinesses db filters pg = Inr rs \<and> r \<in> set rs \<longrightarrow> b_is_active (res_business r))
   \<and> (searchBusinesses db query filters pg = Inr rs' \<and> r' \<in> set rs' \<longrightarrow>
        b_is_active (res_business r'))
   \<and> (getBusinessBySlug db slug = Some d \<longrightarrow> b_is_active (det_business d))
   \<and> (getBusinessCount db filters = Inr n \<longrightarrow>
        n = length (filter (\<lambda>b. b_is_active b
                                \<and> and_all (getBusinessCount_conditions filters) b
                                \<and> facet_match db filters (b_id b)) (businesses db)))
   \<and> (getSearchCount db query filters = Inr n' \<longrightarrow>
        n' = length (filter (\<lambda>b. b_is_active b
                                \<and> and_all (searchBusinesses_conditions query filters) b
                                \<and> facet_match db filters (b_id b)) (businesses db)))
   \<and> getBusinesses (without_inactive db) filters pg = getBusinesses db filters pg
   \<and> searchBusinesses (without_inactive db) query filters pg =
       searchBusinesses db query filters pg
   \<and> getBusinessBySlug (without_inactive db) slug = getBusinessBySlug db slug
   \<and> getBusinessCount (without_inactive db) filters = getBusinessCount db filters
   \<and> getSearchCount (without_inactive db) query filters = getSearchCount db query filters"
proof (intro conjI impI)
  show "b_is_active (res_business r)" if "getBusinesses db filters pg = Inr rs \<and> r \<in> set rs"
    using that getBusinesses_active by blast
  show "b_is_active (res_business r')"
    if "searchBusinesses db query filters pg = Inr rs' \<and> r' \<in> set rs'"
    using that searchBusinesses_active by blast
  show "b_is_active (det_business d)" if "getBusinessBySlug db slug = Some d"
    using that getBusinessBySlug_Some by blast
  show "n = length (filter (\<lambda>b. b_is_active b
                                \<and> and_all (getBusinessCount_conditions filters) b
                                \<and> facet_match db filters (b_id b)) (businesses db))"
    if "getBusinessCount db filters = Inr n"
    unfolding getBusinessCount_results [OF that]
    by (simp only: active_and_conditions [OF getBusinessCount_conditions_active])
  show "n' = length (filter (\<lambda>b. b_is_active b
                                \<and> and_all (searchBusinesses_conditions query filters) b
                                \<and> facet_match db filters (b_id b)) (businesses db))"
    if "getSearchCount db query filters = Inr n'"
    unfolding getSearchCount_results [OF that]
    by (simp only: active_and_conditions [OF searchBusinesses_conditions_active])
  show "getBusinesses (without_inactive db) filters pg = getBusinesses db filters pg"
    by (rule getBusinesses_without_inactive)
  show "searchBusinesses (without_inactive db) query filters pg =
      searchBusinesses db query filters pg"
    by (rule searchBusinesses_without_inactive)
  show "getBusinessBySlug (without_inactive db) slug = getBusinessBySlug db slug"
    by (rule getBusinessBySlug_without_inactive)
  show "getBusinessCount (without_inactive db) filters = getBusinessCount db filters"
    by (rule getBusinessCount_without_inactive)
  show "getSearchCount (without_inactive db) query filters = getSearchCount db query filters"
    by (rule getSearchCount_without_inactive)
qed

theorem active_only_witness:
  "getBusinesses rated_store no_filters first_page =
     Inr (map (with_categories rated_store)
            [listing 3 ''gamma'' 5 True True, listing 2 ''beta'' 4 True False,
             listing 1 ''alpha'' 3 True False])
   \<and> searchBusinesses rated_store [] no_filters first_page =
     Inr (map (with_categories rated_store)
            [listing 3 ''gamma'' 5 True True, listing 2 ''beta'' 4 True False,
             listing 1 ''alpha'' 3 True False])
   \<and> b_is_active (res_business (with_categories rated_store (listing 3 ''gamma'' 5 True True)))
   \<and> getBusinessBySlug rated_store ''gamma'' \<noteq> None
   \<and> b_is_active (det_business (the (getBusinessBySlug rated_store ''gamma'')))
   \<and> getBusinessCount rated_store no_filters = Inr 3
   \<and> length (filter (\<lambda>b. b_is_active b
                            \<and> and_all (getBusinessCount_conditions no_filters) b
                            \<and> facet_match rated_store no_filters (b_id b))
                (businesses rated_store)) = 3
   \<and> getBusinessCount (without_inactive rated_store) no_filters = Inr 3"
proof -
  let ?r = "with_categories rated_store (listing 3 ''gamma'' 5 True True)"
  let ?rs = "map (with_categories rated_store)
      [listing 3 ''gamma'' 5 True True, listing 2 ''beta'' 4 True False,
       listing 1 ''alpha'' 3 True False]"
  have listed: "?r \<in> set ?rs"
    by simp
  have detail: "getBusinessBySlug rated_store ''gamma'' \<noteq> None"
    by (simp add: getBusinessBySlug_first store_defs)
  then have some: "getBusinessBySlug rated_store ''gamma'' =
      Some (the (getBusinessBySlug rated_store ''gamma''))"
    by simp
  have count: "getBusinessCount rated_store no_filters = Inr 3"
    by (simp add: turso_defs resolve_defs truthy_defs operator_defs store_defs)
  show ?thesis
    using rated_page rated_search_page listed detail some count
      active_only [of rated_store no_filters first_page ?rs ?r "[]" ?rs ?r "''gamma''"
        "the (getBusinessBySlug rated_store ''gamma'')" 3]
    by simp
qed

text \<open>
  C3.  The claim: \<^verbatim>\<open>searchBusinesses\<close> applies the scalar predicates of
  \<^verbatim>\<open>getBusinesses\<close>, so every listing it returns (and \<^verbatim>\<open>getSearchCount\<close> counts) has a
  rating of at least \<^verbatim>\<open>rating_min\<close>.  The code: on the store of one listing rated 3,
  the query \<^verbatim>\<open>alpha\<close> with \<^verbatim>\<open>rating_min = 4\<close> returns that listing, and the search
  count is 1: neither function reads \<^verbatim>\<open>rating_min\<close>.
\<close>

theorem search_ignores_rating_min:
  "map_sum id (map (\<lambda>r. (b_id (res_business r), b_rating (res_business r))))
     (searchBusinesses single_store ''alpha'' (no_filters\<lparr>f_rating_min := Some 4\<rparr>) first_page)
     = Inr [(1, 3)]
   \<and> getSearchCount single_store ''alpha'' (no_filters\<lparr>f_rating_min := Some 4\<rparr>) = Inr 1"
  by (simp add: turso_defs resolve_defs truthy_defs like_def eq_def gte_def and_all_def or_all_def
      precedes_def order_by_featured_rating_def limit_offset_def Let_def store_defs sql_like_alpha
      del: sql_like.simps)

text \<open>
  C4.  The claim: \<^verbatim>\<open>business_count\<close> of a category is the number of distinct active
  listings that hold a membership row for it.  The code counts
  \<^verbatim>\<open>business_categories.business_id\<close> over the left-joined rows, that is, the membership
  rows of the category: a category whose only member is inactive gets the count 1 (there
  is no active member), and one active member with two membership rows gets the count 2.
\<close>

theorem category_count_is_membership_rows:
  "map cc_business_count (getCategoriesWithCounts inactive_member_store) = [1]
   \<and> distinct_active_members inactive_member_store 1 = 0
   \<and> map cc_business_count (getCategoriesWithCounts duplicate_member_store) = [2]
   \<and> distinct_active_members duplicate_member_store 1 = 1"
  by (simp add: getCategoriesWithCounts_def categories_joined_def left_join_def
      distinct_active_members_def holds_category_def store_defs)

text \<open>
  C5.  The claim: a listing is in the result of \<^verbatim>\<open>getBusinesses\<close> iff it holds
  membership in at least one of the supplied ids of every supplied facet.  The code: in
  the scenario of P2 (filter categories 1 or 2 and amenity 1 over L1, L2, L3) the call
  returns L1 alone; but the ids that the facets resolve to are chained into the listing
  query one \<^verbatim>\<open>or\<close> deep per id, and the store rejects the statement from 88 ids on.
  On the store of 88 active listings, each a member of category 1 and of amenity 1, the
  filter categories 1 and amenity 1 makes \<^verbatim>\<open>getBusinesses\<close> throw on a page that
  could hold every listing: listing 1 is active, holds both memberships, and is in no
  result.
\<close>

theorem facet_filter_rejected_on_crowded_store:
  "map_sum id (map (\<lambda>r. b_id (res_business r)))
     (getBusinesses facet_store facet_filters first_page) = Inr [1]
   \<and> getBusinesses (crowded_store 88) crowded_filters wide_page = Inl StatementRejected
   \<and> int (length (businesses (crowded_store 88))) \<le> p_limit wide_page
   \<and> p_offset wide_page = 0
   \<and> listing 1 ''v'' 4 True False \<in> set (businesses (crowded_store 88))
   \<and> b_is_active (listing 1 ''v'' 4 True False)
   \<and> b_id (listing 1 ''v'' 4 True False) = 1
   \<and> holds_category (crowded_store 88) 1 1
   \<and> holds_amenity (crowded_store 88) 1 1"
proof -
  have one: "1 \<in> set (crowded_ids 88)"
    by (rule one_in_crowded_ids) simp
  have "map_sum id (map (\<lambda>r. b_id (res_business r)))
     (getBusinesses facet_store facet_filters first_page) = Inr [1]"
    by (simp add: turso_defs resolve_defs truthy_defs operator_defs store_defs)
  moreover have "getBusinesses (crowded_store 88) crowded_filters wide_page =
      Inl StatementRejected"
    by (rule crowded_getBusinesses) simp
  moreover have "int (length (businesses (crowded_store 88))) \<le> p_limit wide_page"
    "p_offset wide_page = 0"
    by (simp_all add: crowded_tables length_crowded_ids wide_page_def)
  moreover have "listing 1 ''v'' 4 True False =
      (\<lambda>i. listing i (replicate (nat i) CHR ''v'') 4 True False) 1"
    by simp
  then have "listing 1 ''v'' 4 True False \<in> set (businesses (crowded_store 88))"
    unfolding crowded_tables set_map using one by (simp only: image_eqI)
  moreover have "b_is_active (listing 1 ''v'' 4 True False)"
    "b_id (listing 1 ''v'' 4 True False) = 1"
    by (simp_all add: listing_def)
  moreover have "holds_category (crowded_store 88) 1 1" "holds_amenity (crowded_store 88) 1 1"
    using one by (simp_all add: holds_category_def holds_amenity_def crowded_tables)
  ultimately show ?thesis by simp
qed

text \<open>
  C6.  An explicitly empty list for a facet gives the same page and the same count as
  leaving that facet unset, for each of the three facets and in each of the three
  implementations: the two calls have the same outcome, the value returned or what the
  call throws.
\<close>

theorem empty_facet_is_unset:
  "(getBusinesses db (filters\<lparr>f_categories := Some []\<rparr>) pg =
      getBusinesses db (filters\<lparr>f_categories := None\<rparr>) pg
    \<and> getBusinessCount db (filters\<lparr>f_categories := Some []\<rparr>) =
      getBusinessCount db (filters\<lparr>f_categories := None\<rparr>)
    \<and> Simple_getBusinesses db (filters\<lparr>f_categories := Some []\<rparr>) pg =
      Simple_getBusinesses db (filters\<lparr>f_categories := None\<rparr>) pg
    \<and> Simple_getBusinessCount db (filters\<lparr>f_categories := Some []\<rparr>) =
      Simple_getBusinessCount db (filters\<lparr>f_categories := None\<rparr>)
    \<and> Real_getBusinesses db (filters\<lparr>f_categories := Some []\<rparr>) pg =
      Real_getBusinesses db (filters\<lparr>f_categories := None\<rparr>) pg
    \<and> Real_getBusinessCount db (filters\<lparr>f_categories := Some []\<rparr>) =
      Real_getBusinessCount db (filters\<lparr>f_categories := None\<rparr>))
   \<and> (getBusinesses db (filters\<lparr>f_amenities := Some []\<rparr>) pg =
      getBusinesses db (filters\<lparr>f_amenities := None\<rparr>) pg
    \<and> getBusinessCount db (filters\<lparr>f_amenities := Some []\<rparr>) =
      getBusinessCount db (filters\<lparr>f_amenities := None\<rparr>)
    \<and> Simple_getBusinesses db (filters\<lparr>f_amenities := Some []\<rparr>) pg =
      Simple_getBusinesses db (filters\<lparr>f_amenities := None\<rparr>) pg
    \<and> Simple_getBusinessCount db (filters\<lparr>f_amenities := Some []\<rparr>) =
      Simple_getBusinessCount db (filters\<lparr>f_amenities := None\<rparr>)
    \<and> Real_getBusinesses db (filters\<lparr>f_amenities := Some []\<rparr>) pg =
      Real_getBusinesses db (filters\<lparr>f_amenities := None\<rparr>) pg
    \<and> Real_getBusinessCount db (filters\<lparr>f_amenities := Some []\<rparr>) =
      Real_getBusinessCount db (filters\<lparr>f_amenities := None\<rparr>))
   \<and> (getBusinesses db (filters\<lparr>f_regions := Some []\<rparr>) pg =
      getBusinesses db (filters\<lparr>f_regions := None\<rparr>) pg
    \<and> getBusinessCount db (filters\<lparr>f_regions := Some []\<rparr>) =
      getBusinessCount db (filters\<lparr>f_regions := None\<rparr>)
    \<and> Simple_getBusinesses db (filters\<lparr>f_regions := Some []\<rparr>) pg =
      Simple_getBusinesses db (filters\<lparr>f_regions := None\<rparr>) pg
    \<and> Simple_getBusinessCount db (filters\<lparr>f_regions := Some []\<rparr>) =
      Simple_getBusinessCount db (filters\<lparr>f_regions := None\<rparr>)
    \<and> Real_getBusinesses db (filters\<lparr>f_regions := Some []\<rparr>) pg =
      Real_getBusinesses db (filters\<lparr>f_regions := None\<rparr>) pg
    \<and> Real_getBusinessCount db (filters\<lparr>f_regions := Some []\<rparr>) =
      Real_getBusinessCount db (filters\<lparr>f_regions := None\<rparr>))"
proof -
  have cats: "getBusinesses db (filters\<lparr>f_categories := Some []\<rparr>) pg =
      getBusinesses db (filters\<lparr>f_categories := None\<rparr>) pg
    \<and> getBusinessCount db (filters\<lparr>f_categories := Some []\<rparr>) =
      getBusinessCount db (filters\<lparr>f_categories := None\<rparr>)
    \<and> Simple_getBusinesses db (filters\<lparr>f_categories := Some []\<rparr>) pg =
      Simple_getBusinesses db (filters\<lparr>f_categories := None\<rparr>) pg
    \<and> Simple_getBusinessCount db (filters\<lparr>f_categories := Some []\<rparr>) =
      Simple_getBusinessCount db (filters\<lparr>f_categories := None\<rparr>)
    \<and> Real_getBusinesses db (filters\<lparr>f_categories := Some []\<rparr>) pg =
      Real_getBusinesses db (filters\<lparr>f_categories := None\<rparr>) pg
    \<and> Real_getBusinessCount db (filters\<lparr>f_categories := Some []\<rparr>) =
      Real_getBusinessCount db (filters\<lparr>f_categories := None\<rparr>)"
    by (rule all_agree) (simp_all add: filter_reading_defs has_items_Some_Nil has_items_None)
  have amens: "getBusinesses db (filters\<lparr>f_amenities := Some []\<rparr>) pg =
      getBusinesses db (filters\<lparr>f_amenities := None\<rparr>) pg
    \<and> getBusinessCount db (filters\<lparr>f_amenities := Some []\<rparr>) =
      getBusinessCount db (filters\<lparr>f_amenities := None\<rparr>)
    \<and> Simple_getBusinesses db (filters\<lparr>f_amenities := Some []\<rparr>) pg =
      Simple_getBusinesses db (filters\<lparr>f_amenities := None\<rparr>) pg
    \<and> Simple_getBusinessCount db (filters\<lparr>f_amenities := Some []\<rparr>) =
      Simple_getBusinessCount db (filters\<lparr>f_amenities := None\<rparr>)
    \<and> Real_getBusinesses db (filters\<lparr>f_amenities := Some []\<rparr>) pg =
      Real_getBusinesses db (filters\<lparr>f_amenities := None\<rparr>) pg
    \<and> Real_getBusinessCount db (filters\<lparr>f_amenities := Some []\<rparr>) =
      Real_getBusinessCount db (filters\<lparr>f_amenities := None\<rparr>)"
    by (rule all_agree) (simp_all add: filter_reading_defs has_items_Some_Nil has_items_None)
  have regs: "getBusinesses db (filters\<lparr>f_regions := Some []\<rparr>) pg =
      getBusinesses db (filters\<lparr>f_regions := None\<rparr>) pg
    \<and> getBusinessCount db (filters\<lparr>f_regions := Some []\<rparr>) =
      getBusinessCount db (filters\<lparr>f_regions := None\<rparr>)
    \<and> Simple_getBusinesses db (filters\<lparr>f_regions := Some []\<rparr>) pg =
      Simple_getBusinesses db (filters\<lparr>f_regions := None\<rparr>) pg
    \<and> Simple_getBusinessCount db (filters\<lparr>f_regions := Some []\<rparr>) =
      Simple_getBusinessCount db (filters\<lparr>f_regions := None\<rparr>)
    \<and> Real_getBusinesses db (filters\<lparr>f_regions := Some []\<rparr>) pg =
      Real_getBusinesses db (filters\<lparr>f_regions := None\<rparr>) pg
    \<and> Real_getBusinessCount db (filters\<lparr>f_regions := Some []\<rparr>) =
      Real_getBusinessCount db (filters\<lparr>f_regions := None\<rparr>)"
    by (rule all_agree) (simp_all add: filter_reading_defs has_items_Some_Nil has_items_None)
  show ?thesis by (rule conjI [OF cats conjI [OF amens regs]])
qed

text \<open>
  C7.  In the list \<open>R\<close> of listings returned by \<^verbatim>\<open>getBusinesses\<close> or
  \<^verbatim>\<open>searchBusinesses\<close> (and by \<^verbatim>\<open>getBusinesses\<close> of \<^verbatim>\<open>SimpleDatabase\<close> and
  \<^verbatim>\<open>RealDatabase\<close>), for all positions \<open>i < j\<close>: either \<open>R[i]\<close> is featured and
  \<open>R[j]\<close> is not, or both have the same featured flag and the rating of \<open>R[i]\<close> is at
  least that of \<open>R[j]\<close>.
\<close>

theorem results_ordered:
  assumes "getBusinesses db filters pg = Inr rs
           \<or> searchBusinesses db query filters pg = Inr rs
           \<or> Simple_getBusinesses db filters pg = Inr rs
           \<or> Real_getBusinesses db filters pg = rs"
    and "R = map res_business rs"
    and "i < j" and "j < length R"
  shows "b_featured (R ! i) > b_featured (R ! j)
         \<or> (b_featured (R ! i) = b_featured (R ! j) \<and> b_rating (R ! i) \<ge> b_rating (R ! j))"
proof -
  have "sorted_wrt precedes (map res_business rs)"
    using assms(1) sorted_getBusinesses sorted_searchBusinesses sorted_Simple_getBusinesses
      sorted_Real_getBusinesses by blast
  then have "sorted_wrt precedes R"
    by (simp only: assms(2))
  then have "precedes (R ! i) (R ! j)"
    using assms(3,4) by (rule sorted_wrt_nth_less)
  then show ?thesis by (simp add: precedes_def)
qed

theorem results_ordered_witness:
  "getBusinesses rated_store no_filters first_page =
     Inr (map (with_categories rated_store)
            [listing 3 ''gamma'' 5 True True, listing 2 ''beta'' 4 True False,
             listing 1 ''alpha'' 3 True False])
   \<and> (0::nat) < 1
   \<and> 1 < length [listing 3 ''gamma'' 5 True True, listing 2 ''beta'' 4 True False,
                  listing 1 ''alpha'' 3 True False]
   \<and> (b_featured (listing 3 ''gamma'' 5 True True) > b_featured (listing 2 ''beta'' 4 True False)
       \<or> (b_featured (listing 3 ''gamma'' 5 True True) = b_featured (listing 2 ''beta'' 4 True False)
          \<and> b_rating (listing 3 ''gamma'' 5 True True)
               \<ge> b_rating (listing 2 ''beta'' 4 True False)))"
proof -
  let ?R = "[listing 3 ''gamma'' 5 True True, listing 2 ''beta'' 4 True False,
      listing 1 ''alpha'' 3 True False]"
  have R: "?R = map res_business (map (with_categories rated_store) ?R)"
    by (simp add: with_categories_def)
  have "b_featured (?R ! 0) > b_featured (?R ! 1)
       \<or> (b_featured (?R ! 0) = b_featured (?R ! 1) \<and> b_rating (?R ! 0) \<ge> b_rating (?R ! 1))"
    by (rule results_ordered [where db = rated_store and filters = no_filters
          and pg = first_page and query = "[]" and i = 0 and j = 1,
          OF disjI1 [OF rated_page] R]) simp_all
  with rated_page show ?thesis by simp
qed

text \<open>
  C8, as the claim states it, fails: nothing in the store makes \<^verbatim>\<open>slug\<close> unique
  (\<^verbatim>\<open>slug: column.text()\<close> in \<^verbatim>\<open>db/config.ts\<close>), and the lookup takes the first
  active row with the slug.  With two active listings on the slug \<^verbatim>\<open>dup\<close>, the lookup
  of the slug of listing 2 returns the detail of listing 1.
\<close>

theorem slug_lookup_returns_first_row:
  "listing 2 ''dup'' 4 True False \<in> set (businesses shared_slug_store)
   \<and> b_is_active (listing 2 ''dup'' 4 True False)
   \<and> b_id (listing 2 ''dup'' 4 True False) = 2
   \<and> map_option (\<lambda>d. b_id (det_business d))
        (getBusinessBySlug shared_slug_store (b_slug (listing 2 ''dup'' 4 True False))) = Some 1"
  by (simp add: getBusinessBySlug_first store_defs)

text \<open>
  C8, amended.  When no two active listings share a slug, then for every active listing
  \<open>L\<close> the lookup \<^verbatim>\<open>getBusinessBySlug(L.slug)\<close> returns a detail value whose id is
  \<open>L.id\<close>; and for a slug of no active listing it returns \<^verbatim>\<open>null\<close> (\<open>None\<close>), a
  value, not an error.
\<close>

theorem slug_round_trip:
  "(distinct (map b_slug (filter b_is_active (businesses db)))
      \<and> L \<in> set (businesses db) \<and> b_is_active L \<longrightarrow>
      (\<exists>d. getBusinessBySlug db (b_slug L) = Some d \<and> b_id (det_business d) = b_id L))
   \<and> (slug \<notin> set (map b_slug (filter b_is_active (businesses db))) \<longrightarrow>
      getBusinessBySlug db slug = None)"
proof (intro conjI impI)
  assume a: "distinct (map b_slug (filter b_is_active (businesses db)))
      \<and> L \<in> set (businesses db) \<and> b_is_active L"
  then have "getBusinessBySlug db (b_slug L) \<noteq> None"
    by (auto simp: getBusinessBySlug_None)
  then obtain d where d: "getBusinessBySlug db (b_slug L) = Some d" by blast
  then have "det_business d \<in> set (filter b_is_active (businesses db))"
    "b_slug (det_business d) = b_slug L"
    using getBusinessBySlug_Some [of db "b_slug L" d] by simp_all
  moreover have "L \<in> set (filter b_is_active (businesses db))"
    using a by simp
  moreover have "inj_on b_slug (set (filter b_is_active (businesses db)))"
    using a by (simp add: distinct_map)
  ultimately have "det_business d = L"
    by (rule_tac inj_onD)
  then show "\<exists>d. getBusinessBySlug db (b_slug L) = Some d \<and> b_id (det_business d) = b_id L"
    using d by simp
next
  assume "slug \<notin> set (map b_slug (filter b_is_active (businesses db)))"
  then have "slug \<notin> b_slug ` {b \<in> set (businesses db). b_is_active b}"
    by auto
  then show "getBusinessBySlug db slug = None"
    by (simp add: getBusinessBySlug_None)
qed

theorem slug_round_trip_witness:
  "distinct (map b_slug (filter b_is_active (businesses rated_store)))
   \<and> listing 1 ''alpha'' 3 True False \<in> set (businesses rated_store)
   \<and> b_is_active (listing 1 ''alpha'' 3 True False)
   \<and> (\<exists>d. getBusinessBySlug rated_store ''alpha'' = Some d \<and> b_id (det_business d) = 1)
   \<and> ''nonexistent-xyz'' \<notin> set (map b_slug (filter b_is_active (businesses rated_store)))
   \<and> getBusinessBySlug rated_store ''nonexistent-xyz'' = None"
proof -
  have known: "distinct (map b_slug (filter b_is_active (businesses rated_store)))
      \<and> listing 1 ''alpha'' 3 True False \<in> set (businesses rated_store)
      \<and> b_is_active (listing 1 ''alpha'' 3 True False)"
    by (simp add: store_defs)
  have unknown:
    "''nonexistent-xyz'' \<notin> set (map b_slug (filter b_is_active (businesses rated_store)))"
    by (simp add: store_defs)
  have fields: "b_slug (listing 1 ''alpha'' 3 True False) = ''alpha''"
    "b_id (listing 1 ''alpha'' 3 True False) = 1"
    by (simp_all add: listing_def)
  show ?thesis
    using known unknown
      slug_round_trip [of rated_store "listing 1 ''alpha'' 3 True False" "''nonexistent-xyz''"]
    by (simp add: fields)
qed

text \<open>
  C9.  Every state name found among the active listings or among the regions has exactly
  one row in the output of \<^verbatim>\<open>getStatesWithCounts\<close>, and that row carries the number of
  active listings and the number of regions of that state; a state missing from one of
  the two groupings has the count zero there.  This holds whatever order
  \<^verbatim>\<open>localeCompare\<close> gives.
\<close>

theorem states_with_counts:
  assumes "s \<in> set (map b_state (filter b_is_active (businesses db)))
             \<union> set (map r_state (regions db))"
  shows "filter (\<lambda>row. st_state row = s) (getStatesWithCounts localeCompare db) =
     [\<lparr>st_state = s,
       st_business_count =
         length (filter (\<lambda>b. b_is_active b \<and> b_state b = s) (businesses db)),
       st_region_count = length (filter (\<lambda>r. r_state r = s) (regions db))\<rparr>]"
proof -
  let ?row = "\<lambda>(state, counts). \<lparr>st_state = state,
      st_business_count = sc_business_count counts,
      st_region_count = sc_region_count counts\<rparr>"
  let ?counts = "\<lparr>sc_business_count =
        length (filter (\<lambda>b. b_is_active b \<and> b_state b = s) (businesses db)),
      sc_region_count = length (filter (\<lambda>r. r_state r = s) (regions db))\<rparr>"
  let ?out = "getStatesWithCounts localeCompare db"
  have keys: "map st_state (map ?row (stateMap db)) = map fst (stateMap db)"
    by (induction "stateMap db") (auto simp: case_prod_beta)
  have "s \<in> b_state ` {b \<in> set (businesses db). b_is_active b} \<union> r_state ` set (regions db)"
    using assms by auto
  then have "map_of (stateMap db) s = Some ?counts"
    by (rule map_of_stateMap)
  then have "(s, ?counts) \<in> set (stateMap db)"
    by (rule map_of_SomeD)
  then have "?row (s, ?counts) \<in> ?row ` set (stateMap db)"
    by (rule imageI)
  then have member: "?row (s, ?counts) \<in> set ?out"
    by (simp add: getStatesWithCounts_def set_js_sort)
  have "distinct (map st_state ?out)"
    by (simp add: getStatesWithCounts_def distinct_map_js_sort keys distinct_stateMap
        del: map_map)
  from filter_key_unique [OF this member] show ?thesis by simp
qed

theorem states_with_counts_witness:
  "filter (\<lambda>row. st_state row = ''Utah'') (getStatesWithCounts byte_compare states_store) =
     [\<lparr>st_state = ''Utah'', st_business_count = 0, st_region_count = 1\<rparr>]
   \<and> filter (\<lambda>row. st_state row = ''Ohio'') (getStatesWithCounts byte_compare states_store) =
     [\<lparr>st_state = ''Ohio'', st_business_count = 1, st_region_count = 0\<rparr>]"
proof -
  have utah: "''Utah'' \<in> set (map b_state (filter b_is_active (businesses states_store)))
      \<union> set (map r_state (regions states_store))"
    by (simp add: store_defs)
  have ohio: "''Ohio'' \<in> set (map b_state (filter b_is_active (businesses states_store)))
      \<union> set (map r_state (regions states_store))"
    by (simp add: store_defs)
  show ?thesis
    using states_with_counts [OF utah, of byte_compare]
      states_with_counts [OF ohio, of byte_compare]
    by (simp add: store_defs)
qed

text \<open>
  C10.  A rating floor of zero gives the same page and the same count as no rating
  floor: \<^verbatim>\<open>if (filters.rating_min)\<close> is false for \<^verbatim>\<open>0\<close>, so no rating predicate is
  added (and the counts never read the field).  This holds in each of the three
  implementations: the two calls have the same outcome, the value returned or what the
  call throws.
\<close>

theorem rating_min_zero_is_absent:
  "getBusinesses db (filters\<lparr>f_rating_min := Some 0\<rparr>) pg =
     getBusinesses db (filters\<lparr>f_rating_min := None\<rparr>) pg
   \<and> getBusinessCount db (filters\<lparr>f_rating_min := Some 0\<rparr>) =
     getBusinessCount db (filters\<lparr>f_rating_min := None\<rparr>)
   \<and> Simple_getBusinesses db (filters\<lparr>f_rating_min := Some 0\<rparr>) pg =
     Simple_getBusinesses db (filters\<lparr>f_rating_min := None\<rparr>) pg
   \<and> Simple_getBusinessCount db (filters\<lparr>f_rating_min := Some 0\<rparr>) =
     Simple_getBusinessCount db (filters\<lparr>f_rating_min := None\<rparr>)
   \<and> Real_getBusinesses db (filters\<lparr>f_rating_min := Some 0\<rparr>) pg =
     Real_getBusinesses db (filters\<lparr>f_rating_min := None\<rparr>) pg
   \<and> Real_getBusinessCount db (filters\<lparr>f_rating_min := Some 0\<rparr>) =
     Real_getBusinessCount db (filters\<lparr>f_rating_min := None\<rparr>)"
  by (rule all_agree)
     (simp_all add: filter_reading_defs truthy_number_Some_zero truthy_number_None)

end
